theory Spec2Isabelle
  imports Complex_Main
begin

text \<open>
  A model of the feed pipeline of \<open>src/app.js\<close>: the helpers on strings and tags, the
  sanitiser, the rewriter with its fallback, the inference of the job location, the three
  tables of the store with their insert-or-ignore statements, and \<open>processFeed\<close> from
  the parsed items to the trimming of old jobs. Functions keep the names they have in the
  source; exceptions are values of a sum type.
\<close>

section \<open>JavaScript strings\<close>

text \<open>
  A JavaScript string is a sequence of UTF-16 code units; \<open>length\<close>, \<open>slice\<close>,
  \<open>includes\<close> and the regular expressions of the program (none has the \<open>u\<close> flag) all
  work on code units. Literals are written \<open>js ''...''\<close> for their ASCII stretches and as
  explicit code units elsewhere.
\<close>

type_synonym jschar = nat
type_synonym jsstring = "jschar list"

definition js :: "string \<Rightarrow> jsstring" where
  "js s = map of_char s"

definition isSpace :: "jschar \<Rightarrow> bool" where
  \<comment> \<open>WhiteSpace and LineTerminator: what \<open>trim\<close> strips and what \<open>\s\<close> matches\<close>
  "isSpace c \<longleftrightarrow>
     c \<in> set [9, 10, 11, 12, 13, 32, 160, 5760, 8232, 8233, 8239, 8287, 12288, 65279]
     \<or> (8192 \<le> c \<and> c \<le> 8202)"

definition isWordChar :: "jschar \<Rightarrow> bool" where
  \<comment> \<open>\<open>\w\<close>: \<open>[A-Za-z0-9_]\<close>\<close>
  "isWordChar c \<longleftrightarrow>
     (48 \<le> c \<and> c \<le> 57) \<or> (65 \<le> c \<and> c \<le> 90) \<or> (97 \<le> c \<and> c \<le> 122) \<or> c = 95"

definition isLineTerminator :: "jschar \<Rightarrow> bool" where
  "isLineTerminator c \<longleftrightarrow> c \<in> set [10, 13, 8232, 8233]"

definition trim :: "jsstring \<Rightarrow> jsstring" where
  "trim s = rev (dropWhile isSpace (rev (dropWhile isSpace s)))"

fun startsWith :: "'a list \<Rightarrow> 'a list \<Rightarrow> bool" where
  "startsWith s [] = True"
| "startsWith [] (p # ps) = False"
| "startsWith (c # cs) (p # ps) = (c = p \<and> startsWith cs ps)"

fun includes_str :: "'a list \<Rightarrow> 'a list \<Rightarrow> bool" where
  "includes_str [] pat = (pat = [])"
| "includes_str (c # cs) pat = (startsWith (c # cs) pat \<or> includes_str cs pat)"

fun join :: "'a list \<Rightarrow> 'a list list \<Rightarrow> 'a list" where
  "join sep [] = []"
| "join sep [x] = x"
| "join sep (x # y # ys) = x @ sep @ join sep (y # ys)"

section \<open>Regular expressions\<close>

text \<open>
  The regular expressions of the program are kept as data and run by a backtracking
  matcher that returns every way to match, in the order the engine of the language tries
  them: the first element is the match it reports. Every expression with letters in it has
  the \<open>i\<close> flag and only ASCII letters, and without the \<open>u\<close> flag case folding never
  identifies an ASCII code unit with a non-ASCII one, so literals are compared after
  folding ASCII letters.
\<close>

datatype regex =
    Lit jsstring
  | Cls "jschar \<Rightarrow> bool"
  | Seq regex regex
  | Alt regex regex
  | Star regex
  | LazyStar regex
  | NegLook regex
  | WordB
  | Eos
  | Group regex

record mstate =
  m_prev :: "jschar option"
  m_rest :: jsstring
  m_cap :: "(jsstring \<times> jsstring) option"

definition canon :: "jschar \<Rightarrow> jschar" where
  "canon c = (if 97 \<le> c \<and> c \<le> 122 then c - 32 else c)"

fun litMatch :: "jsstring \<Rightarrow> mstate \<Rightarrow> mstate list" where
  "litMatch [] st = [st]"
| "litMatch (p # ps) st =
     (case m_rest st of
        [] \<Rightarrow> []
      | c # cs \<Rightarrow> if canon p = canon c
                 then litMatch ps (st\<lparr>m_prev := Some c, m_rest := cs\<rparr>) else [])"

fun star :: "(mstate \<Rightarrow> mstate list) \<Rightarrow> nat \<Rightarrow> mstate \<Rightarrow> mstate list" where
  "star f 0 st = [st]"
| "star f (Suc n) st =
     concat (map (star f n)
               (filter (\<lambda>st'. length (m_rest st') < length (m_rest st)) (f st))) @ [st]"

fun lazyStar :: "(mstate \<Rightarrow> mstate list) \<Rightarrow> nat \<Rightarrow> mstate \<Rightarrow> mstate list" where
  "lazyStar f 0 st = [st]"
| "lazyStar f (Suc n) st =
     st # concat (map (lazyStar f n)
                    (filter (\<lambda>st'. length (m_rest st') < length (m_rest st)) (f st)))"

definition atWordBoundary :: "mstate \<Rightarrow> bool" where
  "atWordBoundary st \<longleftrightarrow>
     (case m_prev st of None \<Rightarrow> False | Some c \<Rightarrow> isWordChar c)
       \<noteq> (case m_rest st of [] \<Rightarrow> False | c # _ \<Rightarrow> isWordChar c)"

primrec rmatch :: "regex \<Rightarrow> mstate \<Rightarrow> mstate list" where
  "rmatch (Lit p) st = litMatch p st"
| "rmatch (Cls P) st =
     (case m_rest st of
        [] \<Rightarrow> []
      | c # cs \<Rightarrow> if P c then [st\<lparr>m_prev := Some c, m_rest := cs\<rparr>] else [])"
| "rmatch (Seq a b) st = concat (map (rmatch b) (rmatch a st))"
| "rmatch (Alt a b) st = rmatch a st @ rmatch b st"
| "rmatch (Star a) st = star (rmatch a) (length (m_rest st)) st"
| "rmatch (LazyStar a) st = lazyStar (rmatch a) (length (m_rest st)) st"
| "rmatch (NegLook a) st = (if rmatch a st = [] then [st] else [])"
| "rmatch WordB st = (if atWordBoundary st then [st] else [])"
| "rmatch Eos st = (if m_rest st = [] then [st] else [])"
| "rmatch (Group a) st = map (\<lambda>st'. st'\<lparr>m_cap := Some (m_rest st, m_rest st')\<rparr>) (rmatch a st)"

definition seqs :: "regex list \<Rightarrow> regex" where
  "seqs rs = foldr Seq rs (Lit [])"

definition alts :: "jsstring list \<Rightarrow> regex" where
  \<comment> \<open>\<open>(a|b|c)\<close> over literals; with no alternative it matches nothing\<close>
  "alts ps = foldr (\<lambda>p r. Alt (Lit p) r) ps (Cls (\<lambda>_. False))"

definition Plus :: "regex \<Rightarrow> regex" where
  "Plus r = Seq r (Star r)"

definition Opt :: "regex \<Rightarrow> regex" where
  "Opt r = Alt r (Lit [])"

definition matchedText :: "jsstring \<Rightarrow> mstate \<Rightarrow> jsstring" where
  \<comment> \<open>the text consumed from \<open>s\<close> by a match that ends in state \<open>st\<close>\<close>
  "matchedText s st = take (length s - length (m_rest st)) s"

definition group1 :: "mstate \<Rightarrow> jsstring option" where
  "group1 st = (case m_cap st of
                  None \<Rightarrow> None
                | Some (a, b) \<Rightarrow> Some (take (length a - length b) a))"

fun re_exec :: "regex \<Rightarrow> jschar option \<Rightarrow> jsstring \<Rightarrow> (jsstring \<times> mstate) option" where
  \<comment> \<open>\<open>s.match(r)\<close> without the \<open>g\<close> flag: the leftmost match, as (whole match, end state)\<close>
  "re_exec r p s =
     (case rmatch r \<lparr>m_prev = p, m_rest = s, m_cap = None\<rparr> of
        st # _ \<Rightarrow> Some (matchedText s st, st)
      | [] \<Rightarrow> (case s of [] \<Rightarrow> None | c # cs \<Rightarrow> re_exec r (Some c) cs))"

declare re_exec.simps [simp del]

definition re_test :: "regex \<Rightarrow> jsstring \<Rightarrow> bool" where
  "re_test r s \<longleftrightarrow> re_exec r None s \<noteq> None"

fun re_remove :: "regex \<Rightarrow> nat \<Rightarrow> jschar option \<Rightarrow> jsstring \<Rightarrow> jsstring" where
  \<comment> \<open>\<open>s.replace(r, '')\<close> with the \<open>g flag\<close>: \<open>k\<close> counts the code units of the current match
      still to drop\<close>
  "re_remove r k p [] = []"
| "re_remove r (Suc k) p (c # cs) = re_remove r k (Some c) cs"
| "re_remove r 0 p (c # cs) =
     (case rmatch r \<lparr>m_prev = p, m_rest = c # cs, m_cap = None\<rparr> of
        [] \<Rightarrow> c # re_remove r 0 (Some c) cs
      | st # _ \<Rightarrow>
          (case length (c # cs) - length (m_rest st) of
             0 \<Rightarrow> c # re_remove r 0 (Some c) cs
           | Suc k \<Rightarrow> re_remove r k (Some c) cs))"

definition removeAll :: "regex \<Rightarrow> jsstring \<Rightarrow> jsstring" where
  "removeAll r s = re_remove r 0 None s"


section \<open>The platform and the configuration\<close>

text \<open>
  What the program takes from the language and from its libraries, and cannot be read
  from its source, is a parameter: the Unicode case mappings, \<open>html-to-text\<close>'s
  \<open>convert\<close>, \<open>slugify\<close> (called with \<open>lower\<close> and \<open>strict\<close>), \<open>JSON.parse\<close>,
  the formatting of numbers, the host name of \<open>new URL(s)\<close> (\<open>None\<close> where the
  constructor throws) and \<open>unixtime\<close>, the number of seconds that \<open>Date\<close> reads from a
  string (\<open>None\<close> for \<open>NaN\<close>, which the database stores as \<open>NULL\<close>).
\<close>

typedecl jsnum

datatype jsval =
    Null
  | Bool bool
  | Num jsnum
  | Str jsstring
  | Arr "jsval list"
  | Obj "(jsstring \<times> jsval) list"

datatype convert_opts = Wordwrap120 | Wordwrap1000 | Wordwrap120IgnoreHref

record platform =
  toLowerCase :: "jsstring \<Rightarrow> jsstring"
  toUpperCase :: "jsstring \<Rightarrow> jsstring"
  convert :: "convert_opts \<Rightarrow> jsstring \<Rightarrow> jsstring"
  slugify :: "jsstring \<Rightarrow> jsstring"
  JSON_parse_array :: "jsstring \<Rightarrow> jsval list option"
    \<comment> \<open>\<open>JSON.parse\<close> of a text that starts with \<open>[\<close>: the elements, or \<open>None\<close> for a SyntaxError\<close>
  Number_isZero :: "jsnum \<Rightarrow> bool"
  Number_toString :: "jsnum \<Rightarrow> jsstring"
  URL_hostname :: "jsstring \<Rightarrow> jsstring option"
  unixtime :: "jsstring \<Rightarrow> int option"

text \<open>
  The environment variables the modelled functions read. \<open>TARGET_PROFESSION\<close> is never the
  empty string (an empty variable gives \<open>motorista\<close>); \<open>MAX_JOBS\<close> is taken to be an
  integer; \<open>FEED_HOST\<close> is the host name of \<open>FEED_URL\<close>. \<open>AI_PROCESS_LIMIT\<close> is whatever
  \<open>Number\<close> reads from the variable: a finite number, which need not be whole and stands
  here as the real number it denotes, \<open>NaN\<close> for a text that is no number, or an infinity.
\<close>

datatype jsnumber = Finite real | NaN | PosInfinity | NegInfinity

record config =
  TARGET_PROFESSION :: jsstring
  HAS_OPENAI :: bool
  AI_PROCESS_LIMIT :: jsnumber
  MAX_JOBS :: int
  PROFESSION_KEYWORDS :: "jsstring list"
  FEED_HOST :: jsstring

datatype error = TypeError

text \<open>
  Reading \<open>obj[key]\<close> from an object literal finds the literal's own properties and, failing
  that, the members of \<open>Object.prototype\<close>, every one of which is a function or an object
  and so truthy.
\<close>

datatype 'a property = Own 'a | Inherited | Undefined

definition objectPrototypeKeys :: "jsstring list" where
  "objectPrototypeKeys =
    [js ''constructor'', js ''__defineGetter__'', js ''__defineSetter__'',
     js ''hasOwnProperty'', js ''__lookupGetter__'', js ''__lookupSetter__'',
     js ''isPrototypeOf'', js ''propertyIsEnumerable'', js ''toString'', js ''valueOf'',
     js ''__proto__'', js ''toLocaleString'']"

definition getProp :: "(jsstring \<times> 'a) list \<Rightarrow> jsstring \<Rightarrow> 'a property" where
  "getProp obj k =
     (case map_of obj k of
        Some v \<Rightarrow> Own v
      | None \<Rightarrow> if k \<in> set objectPrototypeKeys then Inherited else Undefined)"

section \<open>Helpers\<close>

fun splitRuns :: "(jschar \<Rightarrow> bool) \<Rightarrow> bool \<Rightarrow> jsstring \<Rightarrow> jsstring list" where
  \<comment> \<open>\<open>s.split(/X+/)\<close> for a character class \<open>X\<close>; the flag says that the previous code unit
      was a separator\<close>
  "splitRuns P insep [] = [[]]"
| "splitRuns P insep (c # cs) =
     (if P c then (if insep then splitRuns P True cs else [] # splitRuns P True cs)
      else (case splitRuns P False cs of
              w # ws \<Rightarrow> (c # w) # ws
            | [] \<Rightarrow> [[c]]))"

fun splitLit :: "jsstring \<Rightarrow> nat \<Rightarrow> jsstring \<Rightarrow> jsstring list" where
  \<comment> \<open>\<open>s.split(sep)\<close> for a non-empty string \<open>sep\<close>; \<open>k\<close> counts the code units of the
      current separator still to skip\<close>
  "splitLit sep k [] = [[]]"
| "splitLit sep (Suc k) (c # cs) = splitLit sep k cs"
| "splitLit sep 0 (c # cs) =
     (if startsWith (c # cs) sep then [] # splitLit sep (length sep - 1) cs
      else (case splitLit sep 0 cs of
              w # ws \<Rightarrow> (c # w) # ws
            | [] \<Rightarrow> [[c]]))"

definition mkSlug :: "platform \<Rightarrow> jsstring \<Rightarrow> jsstring" where
  "mkSlug pf s = take 120 (slugify pf (if s = [] then js ''job'' else s))"

definition truncateWords :: "jsstring \<Rightarrow> nat \<Rightarrow> jsstring" where
  "truncateWords txt n =
     (let words = splitRuns isSpace False txt
      in if length words \<le> n then txt
         else join (js '' '') (take n words) @ [8230])"

fun falsy :: "platform \<Rightarrow> jsval \<Rightarrow> bool" where
  "falsy pf Null = True"
| "falsy pf (Bool b) = (\<not> b)"
| "falsy pf (Num n) = Number_isZero pf n"
| "falsy pf (Str s) = (s = [])"
| "falsy pf (Arr vs) = False"
| "falsy pf (Obj kvs) = False"

fun isNull :: "jsval \<Rightarrow> bool" where
  "isNull Null = True"
| "isNull v = False"

fun collect :: "(error + 'a) list \<Rightarrow> error + 'a list" where
  \<comment> \<open>the values in order, or the first exception\<close>
  "collect [] = Inr []"
| "collect (x # xs) =
     (case x of
        Inl e \<Rightarrow> Inl e
      | Inr v \<Rightarrow> (case collect xs of Inl e \<Rightarrow> Inl e | Inr vs \<Rightarrow> Inr (v # vs)))"

fun String_of :: "platform \<Rightarrow> jsval \<Rightarrow> error + jsstring" where
  \<comment> \<open>\<open>String(v)\<close> of a value that \<open>JSON.parse\<close> made. An array prints its elements joined
      by commas, \<open>null\<close> as nothing. An object answers through the inherited \<open>toString\<close>;
      a property \<open>toString\<close> of its own hides that one and is no function, and the inherited
      \<open>valueOf\<close> returns the object, no primitive: a TypeError\<close>
  "String_of pf Null = Inr (js ''null'')"
| "String_of pf (Bool b) = Inr (if b then js ''true'' else js ''false'')"
| "String_of pf (Num n) = Inr (Number_toString pf n)"
| "String_of pf (Str s) = Inr s"
| "String_of pf (Arr vs) =
     map_sum id (join (js '',''))
       (collect (map (\<lambda>v. if isNull v then Inr [] else String_of pf v) vs))"
| "String_of pf (Obj kvs) =
     (if list_ex (\<lambda>kv. fst kv = js ''toString'') kvs then Inl TypeError
      else Inr (js ''[object Object]''))"

fun uniqLoop ::
    "platform \<Rightarrow> jsval list \<Rightarrow> jsstring set \<Rightarrow> jsstring list \<Rightarrow> error + jsstring list" where
  "uniqLoop pf [] seen out = Inr out"
| "uniqLoop pf (t # ts) seen out =
     (if falsy pf t then uniqLoop pf ts seen out
      else case String_of pf t of
             Inl e \<Rightarrow> Inl e
           | Inr s \<Rightarrow>
               (let t' = toLowerCase pf (trim s)
                in if t' = [] then uniqLoop pf ts seen out
                   else if t' \<in> seen then uniqLoop pf ts seen out
                   else uniqLoop pf ts (insert t' seen) (out @ [t'])))"

definition uniqNormTags :: "platform \<Rightarrow> jsval list \<Rightarrow> error + jsstring list" where
  "uniqNormTags pf tags = map_sum id (take 8) (uniqLoop pf tags {} [])"

definition tagSlug :: "platform \<Rightarrow> jsstring \<Rightarrow> jsstring" where
  "tagSlug pf t = mkSlug pf t"

definition anyChar :: regex where
  \<comment> \<open>\<open>[\s\S]\<close>\<close>
  "anyChar = Cls (\<lambda>c. True)"

definition notChar :: "jsstring \<Rightarrow> regex" where
  \<comment> \<open>\<open>[^...]\<close> over the listed code units\<close>
  "notChar cs = Cls (\<lambda>c. c \<notin> set cs)"

definition sanitizeHtml :: "jsstring \<Rightarrow> jsstring" where
  "sanitizeHtml html =
     (if html = [] then []
      else foldl (\<lambda>s r. removeAll r s) html
        [seqs [Lit (js ''<script''), WordB, Star (notChar [60]),
               Star (seqs [NegLook (Lit (js ''</script>'')), Lit (js ''<''), Star (notChar [60])]),
               Lit (js ''</script>'')],
         seqs [Lit (js ''<''), Opt (Lit (js ''/'')),
               alts [js ''iframe'', js ''object'', js ''embed'', js ''link'', js ''style'',
                     js ''noscript''],
               WordB, Star (notChar [62]), Lit (js ''>'')],
         seqs [Cls isSpace, Lit (js ''on''), Plus (Cls isWordChar), Star (Cls isSpace),
               Lit (js ''=''), Star (Cls isSpace), Cls (\<lambda>c. c \<in> set [34, 39]),
               Star (notChar [34, 39]), Cls (\<lambda>c. c \<in> set [34, 39])],
         seqs [Cls isSpace, Lit (js ''on''), Plus (Cls isWordChar), Star (Cls isSpace),
               Lit (js ''=''), Star (Cls isSpace), Plus (Cls (\<lambda>c. \<not> isSpace c \<and> c \<noteq> 62))],
         seqs [Cls isSpace, alts [js ''href'', js ''src''], Star (Cls isSpace), Lit (js ''=''),
               Star (Cls isSpace), Cls (\<lambda>c. c \<in> set [34, 39]), Star (Cls isSpace),
               Lit (js ''javascript:''), Star (notChar [34, 39]), Cls (\<lambda>c. c \<in> set [34, 39])],
         seqs [Cls isSpace, alts [js ''href'', js ''src''], Star (Cls isSpace), Lit (js ''=''),
               Star (Cls isSpace), Lit (js ''javascript:''),
               Plus (Cls (\<lambda>c. \<not> isSpace c \<and> c \<noteq> 62))]])"

definition stripDocumentTags :: "jsstring \<Rightarrow> jsstring" where
  "stripDocumentTags html =
     (if html = [] then []
      else trim (foldl (\<lambda>s r. removeAll r s) html
        [seqs [Lit (js ''<!DOCTYPE''), Star (notChar [62]), Lit (js ''>'')],
         seqs [Lit (js ''<''), Opt (Lit (js ''/'')), Lit (js ''html''), Star (notChar [62]),
               Lit (js ''>'')],
         seqs [Lit (js ''<''), Opt (Lit (js ''/'')), Lit (js ''head''), Star (notChar [62]),
               Lit (js ''>'')],
         seqs [Lit (js ''<''), Opt (Lit (js ''/'')), Lit (js ''body''), Star (notChar [62]),
               Lit (js ''>'')],
         seqs [Lit (js ''<meta''), Star (notChar [62]), Lit (js ''>'')],
         seqs [Lit (js ''<title''), Star (notChar [62]), Lit (js ''>''),
               LazyStar (Cls (\<lambda>c. \<not> isLineTerminator c)), Lit (js ''</title>'')]]))"

fun escapeChar :: "jschar \<Rightarrow> jsstring" where
  "escapeChar c =
     (if c = 38 then js ''&amp;''
      else if c = 60 then js ''&lt;''
      else if c = 62 then js ''&gt;''
      else if c = 34 then js ''&quot;''
      else if c = 39 then js ''&#39;''
      else [c])"

definition escapeHtml :: "jsstring \<Rightarrow> jsstring" where
  "escapeHtml s = concat (map escapeChar s)"

definition matchesProfession ::
    "platform \<Rightarrow> config \<Rightarrow> jsstring \<Rightarrow> jsstring \<Rightarrow> jsstring \<Rightarrow> bool" where
  "matchesProfession pf cfg title company description =
     (let text = toLowerCase pf (title @ js '' '' @ company @ js '' '' @ description)
      in list_ex (\<lambda>keyword. includes_str text keyword) (PROFESSION_KEYWORDS cfg))"

section \<open>Tags\<close>

definition PROFESSION_TAGS :: "(jsstring \<times> jsstring list) list" where
  "PROFESSION_TAGS =
    [
     (js ''warehouse'',
       [js ''armaz'' @ [233] @ js ''m'',
        js ''trabalhador de armaz'' @ [233] @ js ''m'',
        js ''associado de armaz'' @ [233] @ js ''m'',
        js ''operador de armaz'' @ [233] @ js ''m'',
        js ''trabalhador geral'',
        js ''repositor'',
        js ''separador'',
        js ''embalador'',
        js ''separador de pedidos'',
        js ''carregador'',
        js ''descarregador'',
        js ''trabalhador de doca'',
        js ''operador de empilhadeira'',
        js ''operador de empilhadeira el'' @ [233] @ js ''trica'',
        js ''manuseador de materiais'',
        js ''assistente de expedi'' @ [231, 227] @ js ''o'',
        js ''assistente de recebimento'',
        js ''especialista em controle de invent'' @ [225] @ js ''rio'',
        js ''supervisor de armaz'' @ [233] @ js ''m'',
        js ''gerente de armaz'' @ [233] @ js ''m'',
        js ''associado de log'' @ [237] @ js ''stica'',
        js ''associado de distribui'' @ [231, 227] @ js ''o'',
        js ''associado da cadeia de suprimentos'',
        js ''estoquista'',
        js ''almoxarife'',
        js ''auxiliar de armaz'' @ [233] @ js ''m'',
        js ''operador de paleteira'',
        js ''operador de empilhadeira retr'' @ [225] @ js ''til'',
        js ''contador c'' @ [237] @ js ''clico'',
        js ''inspector de recebimento'']),
     (js ''truck driver'',
       [js ''categoria e'',
        js ''categoria a'',
        js ''cnh'',
        js ''longa dist'' @ [226] @ js ''ncia'',
        js ''regional'',
        js ''local'',
        js ''caminh'' @ [227] @ js ''o-tanque'',
        js ''carroceria plana'',
        js ''otr'',
        js ''cargas perigosas (hazmat)'']),
     (js ''software engineer'',
       [js ''javascript'',
        js ''python'',
        js ''java'',
        js ''react'',
        js ''node'',
        js ''backend'',
        js ''frontend'',
        js ''full stack'',
        js ''devops'']),
     (js ''nurse'',
       [js ''enfermeiro(a)'',
        js ''t'' @ [233] @ js ''cnico(a) de enfermagem'',
        js ''uti'',
        js ''emerg'' @ [234] @ js ''ncia'',
        js ''pediatria'',
        js ''cir'' @ [250] @ js ''rgico'',
        js ''cuidados intensivos'',
        js ''oncologia'']),
     (js ''electrician'',
       [js ''comercial'',
        js ''residencial'',
        js ''industrial'',
        js ''aprendiz'',
        js ''eletricista qualificado'',
        js ''mestre eletricista'']),
     (js ''mechanic'',
       [js ''automotivo'',
        js ''diesel'',
        js ''equipamentos pesados'',
        js ''mar'' @ [237] @ js ''timo'',
        js ''aeronaves'',
        js ''certifica'' @ [231, 227] @ js ''o ase'']),
     (js ''welder'',
       [js ''mig'',
        js ''tig'',
        js ''eletrodo revestido'',
        js ''flux core'',
        js ''soldagem de tubos'',
        js ''estrutural'',
        js ''a'' @ [231] @ js ''o inoxid'' @ [225] @ js ''vel'']),
     (js ''warehouse+'',
       [js ''empilhadeira'',
        js ''empilhadeira retr'' @ [225] @ js ''til'',
        js ''separador'',
        js ''embalador'',
        js ''expedi'' @ [231, 227] @ js ''o'',
        js ''recebimento'',
        js ''invent'' @ [225] @ js ''rio''])
    ]"

definition extractTags ::
    "platform \<Rightarrow> config \<Rightarrow> jsstring \<Rightarrow> jsstring \<Rightarrow> jsstring \<Rightarrow> error + jsstring list" where
  "extractTags pf cfg title company html =
     (let text = toLowerCase pf
                   (title @ js '' '' @ company @ js '' '' @ take 1000 (convert pf Wordwrap120 html));
          profKey = toLowerCase pf (TARGET_PROFESSION cfg);
          profTags =
            (case getProp PROFESSION_TAGS profKey of
               Own ts \<Rightarrow> Inr ts
             | Inherited \<Rightarrow> Inl TypeError
             | Undefined \<Rightarrow>
                 (case getProp PROFESSION_TAGS (js '' Warehouse'') of
                    Own ts \<Rightarrow> Inr ts
                  | Inherited \<Rightarrow> Inl TypeError
                  | Undefined \<Rightarrow> Inr []))
      in case profTags of
           Inl e \<Rightarrow> Inl e
         | Inr ts \<Rightarrow>
             uniqNormTags pf (map Str
               (filter (\<lambda>tag. includes_str text tag) ts
                @ (if re_test (alts [js ''remote'', js ''homeoffice'', js ''home office'',
                                     js ''work from home'', js ''telecommute'']) text
                   then [js ''remote''] else [])
                @ (if re_test (alts [js ''vollzeit'', js ''full time'', js ''full-time'']) text
                   then [js ''full-time''] else [])
                @ (if re_test (alts [js ''teilzeit'', js ''part time'', js ''part-time'']) text
                   then [js ''part-time''] else [])
                @ (if re_test (alts [js ''festanstellung'', js ''unbefristet'',
                                     js ''permanent'']) text
                   then [js ''permanent''] else [])
                @ (if re_test (alts [js ''befristet'', js ''temporary'', js ''zeitarbeit'',
                                     js ''contract'']) text
                   then [js ''contract''] else [])
                @ [toLowerCase pf (TARGET_PROFESSION cfg)])))"

section \<open>Location\<close>

datatype country = CountryCode jsstring | PrototypeMember jsstring

record postal_address =
  addressLocality :: "jsstring option"
  addressCountry :: country

record place =
  address :: postal_address

definition tldMap :: "(jsstring \<times> jsstring) list" where
  "tldMap =
    [(js ''de'', js ''DE''),
     (js ''at'', js ''AT''),
     (js ''br'', js ''BR''),
     (js ''ch'', js ''CH''),
     (js ''li'', js ''LI''),
     (js ''uk'', js ''GB''),
     (js ''gb'', js ''GB''),
     (js ''ie'', js ''IE''),
     (js ''us'', js ''US''),
     (js ''ca'', js ''CA''),
     (js ''au'', js ''AU''),
     (js ''nz'', js ''NZ''),
     (js ''nl'', js ''NL''),
     (js ''be'', js ''BE''),
     (js ''fr'', js ''FR''),
     (js ''es'', js ''ES''),
     (js ''pt'', js ''PT''),
     (js ''it'', js ''IT''),
     (js ''pl'', js ''PL''),
     (js ''cz'', js ''CZ''),
     (js ''sk'', js ''SK''),
     (js ''hu'', js ''HU''),
     (js ''ro'', js ''RO''),
     (js ''bg'', js ''BG''),
     (js ''ua'', js ''UA''),
     (js ''rs'', js ''RS''),
     (js ''hr'', js ''HR''),
     (js ''si'', js ''SI''),
     (js ''dk'', js ''DK''),
     (js ''se'', js ''SE''),
     (js ''no'', js ''NO''),
     (js ''fi'', js ''FI''),
     (js ''is'', js ''IS''),
     (js ''ee'', js ''EE''),
     (js ''lv'', js ''LV''),
     (js ''lt'', js ''LT'')]"

definition getCountryFromHost :: "platform \<Rightarrow> jsstring \<Rightarrow> country" where
  "getCountryFromHost pf siteUrl =
     (case URL_hostname pf siteUrl of
        None \<Rightarrow> CountryCode (js ''US'')
      | Some hostname \<Rightarrow>
          (let host = toLowerCase pf hostname;
               tld = (case rev (splitLit (js ''.'') 0 host) of
                        [] \<Rightarrow> js ''undefined''
                      | l # _ \<Rightarrow> l)
           in case getProp tldMap tld of
                Own c \<Rightarrow> if c = [] then CountryCode (js ''US'') else CountryCode c
              | Inherited \<Rightarrow> PrototypeMember tld
              | Undefined \<Rightarrow> CountryCode (js ''US'')))"

definition citiesBR :: "jsstring list" where
  "citiesBR =
    [js ''s'' @ [227] @ js ''o paulo'',
     js ''sao paulo'',
     js ''sp'',
     js ''rio de janeiro'',
     js ''rj'',
     js ''brasilia'',
     js ''df'',
     js ''salvador'',
     js ''ssa'',
     js ''fortaleza'',
     js ''ce'',
     js ''belo horizonte'',
     js ''bh'',
     js ''mg'',
     js ''manaus'',
     js ''am'',
     js ''curitiba'',
     js ''pr'',
     js ''recife'',
     js ''pe'',
     js ''porto alegre'',
     js ''rs'',
     js ''goi'' @ [226] @ js ''nia'',
     js ''goiania'',
     js ''go'',
     js ''bel'' @ [233] @ js ''m'',
     js ''belem'',
     js ''pa'',
     js ''s'' @ [227] @ js ''o lu'' @ [237] @ js ''s'',
     js ''sao luis'',
     js ''ma'',
     js ''macei'' @ [243],
     js ''maceio'',
     js ''al'',
     js ''natal'',
     js ''rn'',
     js ''terezina'',
     js ''teresina'',
     js ''pi'',
     js ''jo'' @ [227] @ js ''o pessoa'',
     js ''joao pessoa'',
     js ''pb'',
     js ''campo grande'',
     js ''ms'',
     js ''cuiab'' @ [225],
     js ''cuiaba'',
     js ''mt'',
     js ''florian'' @ [243] @ js ''polis'',
     js ''florianopolis'',
     js ''sc'',
     js ''aracaju'',
     js ''se'',
     js ''palmas'',
     js ''to'']"

definition inferJobLocations :: "platform \<Rightarrow> jsstring \<Rightarrow> jsstring \<Rightarrow> jsstring \<Rightarrow> place list" where
  "inferJobLocations pf html title siteUrl =
     (let country = getCountryFromHost pf siteUrl;
          text = toLowerCase pf (convert pf Wordwrap1000 html @ js '' '' @ title);
          city = find (\<lambda>c. includes_str text c) citiesBR;
          address =
            (case city of
               Some (c0 # cs) \<Rightarrow>
                 \<lparr>addressLocality = Some (toUpperCase pf [c0] @ cs), addressCountry = country\<rparr>
             | _ \<Rightarrow> \<lparr>addressLocality = None, addressCountry = country\<rparr>)
      in [\<lparr>address = address\<rparr>])"

section \<open>Rewriting\<close>

definition fallbackHead :: jsstring where
  "fallbackHead =
     [10]
     @ js ''<section><h2>Sobre a Vaga</h2>''"

definition fallbackTail :: jsstring where
  "fallbackTail =
     js ''</section>'' @ [10]
     @ [10]
     @ js ''<section><h2>Responsabilidades</h2>'' @ [10]
     @ js ''  <ul>'' @ [10]
     @ js ''    <li>Executar as atividades principais conforme descrito.'' @ js ''</li>'' @ [10]
     @ js ''  </ul>'' @ [10]
     @ js ''</section>'' @ [10]
     @ [10]
     @ js ''<section><h2>Requisitos</h2>'' @ [10]
     @ js ''  <ul>'' @ [10]
     @ js ''    <li>Experi'' @ [234] @ js ''ncia relevante ou disposi'' @ [231, 227] @ js ''o para aprender.</li>'' @ [10]
     @ js ''  </ul>'' @ [10]
     @ js ''</section>'' @ [10]
     @ [10]
     @ js ''<section><h2>Benef'' @ [237] @ js ''cios</h2>'' @ [10]
     @ js ''  <ul>'' @ [10]
     @ js ''    <li>Benef'' @ [237] @ js ''cios conforme descri'' @ [231, 227] @ js ''o da vaga.</li>'' @ [10]
     @ js ''  </ul>'' @ [10]
     @ js ''</section>'' @ [10]
     @ [10]
     @ js ''<section><h2>Remunera'' @ [231, 227] @ js ''o</h2>'' @ [10]
     @ js ''  <p>A ser discutida.</p>'' @ [10]
     @ js ''</section>'' @ [10]
     @ [10]
     @ js ''<section><h2>Local e Hor'' @ [225] @ js ''rio</h2>'' @ [10]
     @ js ''  <p>Conforme descri'' @ [231, 227] @ js ''o da vaga.</p>'' @ [10]
     @ js ''</section>'' @ [10]
     @ [10]
     @ js ''<section><h2>Como se Candidatar</h2>'' @ [10]
     @ js ''  <p>Use o bot'' @ [227] @ js ''o '' @ [8220] @ js ''Candidatar-se'' @ [8221] @ js ''.</p>'' @ [10]
     @ js ''</section>'' @ [10]
     @ [10]"

datatype ai_response = CallFails | Content "jsstring option"

record rich =
  r_short :: jsstring
  r_html :: jsstring
  r_tags :: "jsstring list"
  r_usedAI :: bool

definition fallback ::
    "platform \<Rightarrow> config \<Rightarrow> jsstring \<Rightarrow> jsstring \<Rightarrow> jsstring \<Rightarrow> jsstring \<Rightarrow> error + rich" where
  "fallback pf cfg plain title company html =
     (let paragraphs =
            join [10] (map (\<lambda>p. js ''<p>'' @ escapeHtml p @ js ''</p>'')
                         (take 6 (filter (\<lambda>p. p \<noteq> []) (splitRuns (\<lambda>c. c = 10) False plain))));
          fallbackHTML =
            trim (fallbackHead
                  @ (if paragraphs = [] then js ''<p>Detalhes fornecidos pelo empregador.</p>''
                     else paragraphs)
                  @ fallbackTail)
      in case extractTags pf cfg title company html of
           Inl e \<Rightarrow> Inl e
         | Inr ts \<Rightarrow>
             Inr \<lparr>r_short = truncateWords plain 45, r_html = sanitizeHtml fallbackHTML,
                  r_tags = ts, r_usedAI = False\<rparr>)"

definition aboutSection :: "jsstring \<Rightarrow> jsstring" where
  "aboutSection short =
     js ''<section><h2>Sobre a Vaga</h2><p>'' @ escapeHtml short @ js ''</p></section>''"

definition sectionBetween :: "jsstring \<Rightarrow> jsstring \<Rightarrow> jsstring \<Rightarrow> jsstring" where
  \<comment> \<open>the first group of \<open>/A\s*([\s\S]*?)\s*B/i\<close>, or the empty string\<close>
  "sectionBetween a b out =
     (case re_exec (seqs [Lit a, Star (Cls isSpace), Group (LazyStar anyChar),
                          Star (Cls isSpace), Lit b]) None out of
        None \<Rightarrow> []
      | Some (_, st) \<Rightarrow> (case group1 st of None \<Rightarrow> [] | Some g \<Rightarrow> g))"

definition rewriteJobRich ::
    "platform \<Rightarrow> config \<Rightarrow> ai_response \<Rightarrow> jsstring \<Rightarrow> jsstring \<Rightarrow> jsstring \<Rightarrow> bool
       \<Rightarrow> error + rich" where
  "rewriteJobRich pf cfg ai title company html useAI =
     (let plain = take 9000 (convert pf Wordwrap120IgnoreHref html)
      in if \<not> HAS_OPENAI cfg \<or> \<not> useAI then fallback pf cfg plain title company html
         else case ai of
           CallFails \<Rightarrow> fallback pf cfg plain title company html
         | Content content \<Rightarrow>
             (let out = (case content of None \<Rightarrow> [] | Some c \<Rightarrow> c);
                  short0 = trim (sectionBetween (js ''===DESCRIPTION==='') (js ''===HTML==='') out);
                  short1 = (if short0 = [] then take 300 (convert pf Wordwrap120 out) else short0);
                  short = take 600 (trim (convert pf Wordwrap120 short1));
                  html0 = trim (sectionBetween (js ''===HTML==='') (js ''===TAGS==='') out);
                  html1 = stripDocumentTags (if html0 = [] then aboutSection short else html0);
                  htmlOut = (if length html1 < 50 then aboutSection short else html1);
                  tagsText =
                    (case re_exec (seqs [Lit (js ''===TAGS===''), Star (Cls isSpace),
                                         Group (Star anyChar), Eos]) None out of
                       None \<Rightarrow> []
                     | Some (_, st) \<Rightarrow> (case group1 st of None \<Rightarrow> [] | Some g \<Rightarrow> g));
                  tagsParsed =
                    (case re_exec (seqs [Lit (js ''[''), Star anyChar, Lit (js '']'')])
                            None tagsText of
                       None \<Rightarrow> None
                     | Some (m, _) \<Rightarrow> JSON_parse_array pf m)
              in case (case tagsParsed of
                         Some vs \<Rightarrow> uniqNormTags pf vs
                       | None \<Rightarrow>
                           (case extractTags pf cfg title company html of
                              Inl e \<Rightarrow> Inl e
                            | Inr ts \<Rightarrow> uniqNormTags pf (map Str ts))) of
                   Inl e \<Rightarrow> fallback pf cfg plain title company html
                 | Inr tags \<Rightarrow>
                     Inr \<lparr>r_short = short, r_html = sanitizeHtml htmlOut,
                          r_tags = tags, r_usedAI = True\<rparr>))"

section \<open>Storage\<close>

text \<open>
  The three tables the pipeline writes. \<open>id\<close> is \<open>INTEGER PRIMARY KEY AUTOINCREMENT\<close>: a
  new row takes one more than the largest id the table has ever held, which the database
  keeps in its sequence counter. \<open>guid\<close> and \<open>slug\<close> of a job, and \<open>name\<close> and \<open>slug\<close> of
  a tag, are \<open>UNIQUE\<close>; every insert is \<open>INSERT OR IGNORE\<close>. The id is taken before the
  unique columns are checked, so an ignored insert stores no row and still uses up its
  id. No table has a foreign key.
\<close>

record job =
  j_id :: nat
  j_guid :: jsstring
  j_source :: jsstring
  j_title :: jsstring
  j_company :: jsstring
  j_description_html :: jsstring
  j_description_short :: jsstring
  j_url :: jsstring
  j_published_at :: "int option"
  j_slug :: jsstring
  j_tags_csv :: jsstring
  j_created_at :: int

record tag =
  t_id :: nat
  t_name :: jsstring
  t_slug :: jsstring

record database =
  db_jobs :: "job list"
  db_jobs_seq :: nat
  db_tags :: "tag list"
  db_tags_seq :: nat
  db_job_tags :: "(nat \<times> nat) list"

record job_params =
  p_guid :: jsstring
  p_source :: jsstring
  p_title :: jsstring
  p_company :: jsstring
  p_description_html :: jsstring
  p_description_short :: jsstring
  p_url :: jsstring
  p_published_at :: "int option"
  p_slug :: jsstring
  p_tags_csv :: jsstring

definition stmtInsertJob :: "int \<Rightarrow> database \<Rightarrow> job_params \<Rightarrow> database" where
  \<comment> \<open>\<open>now\<close> is the clock of the database, for the default of \<open>created_at\<close>\<close>
  "stmtInsertJob now db p =
     (let newId = Suc (fold max (map j_id (db_jobs db)) (db_jobs_seq db))
      in if list_ex (\<lambda>j. j_guid j = p_guid p \<or> j_slug j = p_slug p) (db_jobs db)
         then db\<lparr>db_jobs_seq := newId\<rparr>
         else db\<lparr>db_jobs := db_jobs db @
                   [\<lparr>j_id = newId, j_guid = p_guid p, j_source = p_source p,
                     j_title = p_title p, j_company = p_company p,
                     j_description_html = p_description_html p,
                     j_description_short = p_description_short p, j_url = p_url p,
                     j_published_at = p_published_at p, j_slug = p_slug p,
                     j_tags_csv = p_tags_csv p, j_created_at = now\<rparr>],
                 db_jobs_seq := newId\<rparr>)"

definition stmtHasGuid :: "database \<Rightarrow> jsstring \<Rightarrow> job option" where
  "stmtHasGuid db g = find (\<lambda>j. j_guid j = g) (db_jobs db)"

definition stmtInsertTag :: "database \<Rightarrow> jsstring \<Rightarrow> jsstring \<Rightarrow> database" where
  "stmtInsertTag db name slug =
     (let newId = Suc (fold max (map t_id (db_tags db)) (db_tags_seq db))
      in if list_ex (\<lambda>t. t_name t = name \<or> t_slug t = slug) (db_tags db)
         then db\<lparr>db_tags_seq := newId\<rparr>
         else db\<lparr>db_tags := db_tags db @ [\<lparr>t_id = newId, t_name = name, t_slug = slug\<rparr>],
                 db_tags_seq := newId\<rparr>)"

definition stmtGetTagByName :: "database \<Rightarrow> jsstring \<Rightarrow> tag option" where
  "stmtGetTagByName db name = find (\<lambda>t. t_name t = name) (db_tags db)"

definition stmtInsertJobTag :: "database \<Rightarrow> nat \<Rightarrow> nat \<Rightarrow> database" where
  "stmtInsertJobTag db jobId tagId =
     (if (jobId, tagId) \<in> set (db_job_tags db) then db
      else db\<lparr>db_job_tags := db_job_tags db @ [(jobId, tagId)]\<rparr>)"

definition upsertTagsForJob :: "platform \<Rightarrow> database \<Rightarrow> nat \<Rightarrow> jsstring list \<Rightarrow> database" where
  "upsertTagsForJob pf db jobId names =
     foldl (\<lambda>d name.
              let d1 = stmtInsertTag d name (tagSlug pf name)
              in case stmtGetTagByName d1 name of
                   Some t \<Rightarrow> stmtInsertJobTag d1 jobId (t_id t)
                 | None \<Rightarrow> d1)
           db names"

definition insertJob :: "platform \<Rightarrow> int \<Rightarrow> database \<Rightarrow> job_params \<Rightarrow> database" where
  \<comment> \<open>the body of the loop of \<open>insertBatch\<close>\<close>
  "insertJob pf now db job =
     (let d1 = stmtInsertJob now db job
      in case stmtHasGuid d1 (p_guid job) of
           Some inserted \<Rightarrow>
             upsertTagsForJob pf d1 (j_id inserted)
               (filter (\<lambda>n. n \<noteq> []) (splitLit (js '', '') 0 (p_tags_csv job)))
         | None \<Rightarrow> d1)"

definition insertBatch :: "platform \<Rightarrow> int \<Rightarrow> database \<Rightarrow> job_params list \<Rightarrow> database" where
  "insertBatch pf now db jobs = foldl (insertJob pf now) db jobs"

text \<open>
  \<open>ORDER BY published_at DESC, id DESC\<close>: \<open>NULL\<close> is smaller than every number, so it comes
  last. A negative \<open>OFFSET\<close> counts as zero.
\<close>

fun pubLess :: "int option \<Rightarrow> int option \<Rightarrow> bool" where
  "pubLess None None = False"
| "pubLess None (Some y) = True"
| "pubLess (Some x) None = False"
| "pubLess (Some x) (Some y) = (x < y)"

definition comesBefore :: "job \<Rightarrow> job \<Rightarrow> bool" where
  "comesBefore a b \<longleftrightarrow>
     pubLess (j_published_at b) (j_published_at a)
     \<or> (j_published_at a = j_published_at b \<and> j_id b < j_id a)"

fun insertDesc :: "job \<Rightarrow> job list \<Rightarrow> job list" where
  "insertDesc x [] = [x]"
| "insertDesc x (y # ys) = (if comesBefore x y then x # y # ys else y # insertDesc x ys)"

definition orderByPublished :: "job list \<Rightarrow> job list" where
  "orderByPublished rows = foldr insertDesc rows []"

definition stmtDeleteOld :: "database \<Rightarrow> int \<Rightarrow> database" where
  "stmtDeleteOld db offset =
     (let old = map j_id (drop (nat offset) (orderByPublished (db_jobs db)))
      in db\<lparr>db_jobs := filter (\<lambda>j. j_id j \<notin> set old) (db_jobs db)\<rparr>)"

definition trimJobs :: "config \<Rightarrow> database \<Rightarrow> database" where
  \<comment> \<open>the end of \<open>processFeed\<close>; the count is read from the table, the cache being stale\<close>
  "trimJobs cfg db =
     (if int (length (db_jobs db)) > MAX_JOBS cfg then stmtDeleteOld db (MAX_JOBS cfg) else db)"

definition danglingJobTags :: "database \<Rightarrow> (nat \<times> nat) list" where
  \<comment> \<open>the rows of \<open>job_tags\<close> whose \<open>job_id\<close> is the id of no job\<close>
  "danglingJobTags db =
     filter (\<lambda>jt. fst jt \<notin> set (map j_id (db_jobs db))) (db_job_tags db)"

section \<open>The feed run\<close>

text \<open>
  A feed is the list of the items the parser hands over at each closing \<open>job\<close> or \<open>item\<close>
  tag. \<open>i_pubDate\<close> is \<open>None\<close> when the item has no date tag: the handler then keeps the
  time at which the item was opened. The clock is taken to stand still during one run.
  The reply of the model to the \<open>i\<close>-th job of the batch is \<open>ai i\<close>. The calls of
  \<open>rewriteJobRich\<close> are what a run does to the world outside, so the run keeps a record of
  them: \<open>requests\<close> holds the flag \<open>shouldUseAI\<close> of every call made, in order, and
  \<open>results\<close> the \<open>usedAI\<close> of every call that returned.
\<close>

record item =
  i_title :: jsstring
  i_description :: jsstring
  i_company :: jsstring
  i_link :: jsstring
  i_guid :: jsstring
  i_pubDate :: "jsstring option"

record raw_job =
  rawTitle :: jsstring
  rawCompany :: jsstring
  rawDescription :: jsstring
  raw_guid :: jsstring
  raw_source :: jsstring
  raw_url :: jsstring
  raw_published_at :: "int option"

record clock =
  isoNow :: jsstring
  unixNow :: int

record parse_state =
  processed :: nat
  matched :: nat
  skipped :: nat
  batch :: "raw_job list"

fun decimal :: "nat \<Rightarrow> jsstring" where
  "decimal n = (if n < 10 then [48 + n] else decimal (n div 10) @ [48 + n mod 10])"

declare decimal.simps [simp del]

definition itemGuid :: "item \<Rightarrow> nat \<Rightarrow> jsstring" where
  "itemGuid it n =
     (if i_guid it \<noteq> [] then i_guid it
      else if i_link it \<noteq> [] then i_link it
      else js ''job-'' @ decimal n)"

definition closeItem ::
    "platform \<Rightarrow> config \<Rightarrow> clock \<Rightarrow> database \<Rightarrow> parse_state \<Rightarrow> item \<Rightarrow> parse_state" where
  "closeItem pf cfg clk db st it =
     (let n = Suc (processed st);
          guid = itemGuid it n
      in if stmtHasGuid db guid \<noteq> None
         then st\<lparr>processed := n, skipped := Suc (skipped st)\<rparr>
         else if \<not> matchesProfession pf cfg (i_title it) (i_company it) (i_description it)
         then st\<lparr>processed := n, skipped := Suc (skipped st)\<rparr>
         else st\<lparr>processed := n, matched := Suc (matched st),
                 batch := batch st @
                   [\<lparr>rawTitle = i_title it, rawCompany = i_company it,
                     rawDescription = i_description it, raw_guid = guid,
                     raw_source = FEED_HOST cfg, raw_url = i_link it,
                     raw_published_at =
                       unixtime pf (case i_pubDate it of None \<Rightarrow> isoNow clk | Some d \<Rightarrow> d)\<rparr>]\<rparr>)"

fun belowLimit :: "nat \<Rightarrow> jsnumber \<Rightarrow> bool" where
  \<comment> \<open>\<open>n < x\<close> for a counter \<open>n\<close>; every comparison with \<open>NaN\<close> is false\<close>
  "belowLimit n (Finite x) = (real n < x)"
| "belowLimit n NaN = False"
| "belowLimit n PosInfinity = True"
| "belowLimit n NegInfinity = False"

definition shouldUseAI :: "config \<Rightarrow> nat \<Rightarrow> bool" where
  "shouldUseAI cfg aiEnhanced \<longleftrightarrow>
     AI_PROCESS_LIMIT cfg = Finite 0 \<or> belowLimit aiEnhanced (AI_PROCESS_LIMIT cfg)"

definition feedSlug :: "platform \<Rightarrow> raw_job \<Rightarrow> jsstring" where
  "feedSlug pf rawJob =
     (let a = mkSlug pf (rawTitle rawJob @ js ''-'' @ rawCompany rawJob)
      in if a \<noteq> [] then a
         else let b = mkSlug pf (rawTitle rawJob)
              in if b \<noteq> [] then b else mkSlug pf (raw_guid rawJob))"

record enrich_state =
  aiEnhanced :: nat
  fallbackUsed :: nat
  processedBatch :: "job_params list"
  store :: database
  requests :: "bool list"
  results :: "bool list"

datatype outcome = Completed | Stalled error

definition jobParams :: "platform \<Rightarrow> raw_job \<Rightarrow> rich \<Rightarrow> job_params" where
  \<comment> \<open>the object pushed on \<open>processedBatch\<close>\<close>
  "jobParams pf rawJob r =
     \<lparr>p_guid = raw_guid rawJob, p_source = raw_source rawJob,
      p_title = (if rawTitle rawJob = [] then js ''Untitled'' else rawTitle rawJob),
      p_company = rawCompany rawJob,
      p_description_html = r_html r,
      p_description_short = truncateWords (r_short r) 60,
      p_url = raw_url rawJob,
      p_published_at = raw_published_at rawJob,
      p_slug = feedSlug pf rawJob,
      p_tags_csv = join (js '', '') (r_tags r)\<rparr>"

fun enrich ::
    "platform \<Rightarrow> config \<Rightarrow> clock \<Rightarrow> (nat \<Rightarrow> ai_response) \<Rightarrow> nat \<Rightarrow> raw_job list
       \<Rightarrow> enrich_state \<Rightarrow> outcome \<times> enrich_state" where
  "enrich pf cfg clk ai i [] st = (Completed, st)"
| "enrich pf cfg clk ai i (rawJob # todo) st =
     (let st0 = st\<lparr>requests := requests st @ [shouldUseAI cfg (aiEnhanced st)]\<rparr>
      in case rewriteJobRich pf cfg (ai i) (rawTitle rawJob) (rawCompany rawJob)
                (rawDescription rawJob) (shouldUseAI cfg (aiEnhanced st)) of
        Inl e \<Rightarrow> (Stalled e, st0)
      | Inr r \<Rightarrow>
          (let st1 = (if r_usedAI r
                      then st0\<lparr>aiEnhanced := Suc (aiEnhanced st),
                               results := results st @ [True]\<rparr>
                      else st0\<lparr>fallbackUsed := Suc (fallbackUsed st),
                               results := results st @ [False]\<rparr>);
               pb = processedBatch st1 @ [jobParams pf rawJob r];
               st2 = (if length pb \<ge> 100
                      then st1\<lparr>store := insertBatch pf (unixNow clk) (store st1) pb,
                               processedBatch := []\<rparr>
                      else st1\<lparr>processedBatch := pb\<rparr>)
           in enrich pf cfg clk ai (Suc i) todo st2))"

definition settled :: "enrich_state \<Rightarrow> jsstring \<Rightarrow> jsstring \<Rightarrow> bool" where
  \<comment> \<open>a job with this guid and slug is stored, blocked by a stored job, or waiting in
      \<open>processedBatch\<close>\<close>
  "settled st g s \<longleftrightarrow>
     g \<in> j_guid ` set (db_jobs (store st)) \<or> s \<in> j_slug ` set (db_jobs (store st))
     \<or> list_ex (\<lambda>p. p_guid p = g \<and> p_slug p = s) (processedBatch st)"

definition ingest ::
    "platform \<Rightarrow> config \<Rightarrow> clock \<Rightarrow> (nat \<Rightarrow> ai_response) \<Rightarrow> item list \<Rightarrow> database
       \<Rightarrow> outcome \<times> enrich_state" where
  \<comment> \<open>\<open>processFeed\<close> up to the counting of the stored jobs. An exception of the rewriter is
      raised inside the handler of the parser's end, which nothing awaits: the run never
      resolves, so it stops with what the earlier batches stored\<close>
  "ingest pf cfg clk ai items db =
     (let ps = foldl (closeItem pf cfg clk db)
                 \<lparr>processed = 0, matched = 0, skipped = 0, batch = []\<rparr> items
      in case enrich pf cfg clk ai 0 (batch ps)
                \<lparr>aiEnhanced = 0, fallbackUsed = 0, processedBatch = [], store = db,
                 requests = [], results = []\<rparr> of
           (Stalled e, st) \<Rightarrow> (Stalled e, st)
         | (Completed, st) \<Rightarrow>
             (Completed,
              if processedBatch st \<noteq> []
              then st\<lparr>store := insertBatch pf (unixNow clk) (store st) (processedBatch st)\<rparr>
              else st))"

definition processFeed ::
    "platform \<Rightarrow> config \<Rightarrow> clock \<Rightarrow> (nat \<Rightarrow> ai_response) \<Rightarrow> item list \<Rightarrow> database
       \<Rightarrow> outcome \<times> enrich_state" where
  "processFeed pf cfg clk ai items db =
     (case ingest pf cfg clk ai items db of
        (Stalled e, st) \<Rightarrow> (Stalled e, st)
      | (Completed, st) \<Rightarrow> (Completed, st\<lparr>store := trimJobs cfg (store st)\<rparr>))"

section \<open>An example platform\<close>

text \<open>
  A concrete platform for evaluating the program on examples. Its functions agree with the
  real ones on the inputs of the examples: ASCII text for the case mappings; short texts
  without markup, which \<open>convert\<close> returns as they are; titles of ASCII letters, digits,
  spaces and hyphens for \<open>slugify\<close>; \<open>http\<close> and \<open>https\<close> addresses that consist of a
  scheme, a lower-case host and an optional port or path; and the listed JSON texts and
  dates.
\<close>

definition asciiLower :: "jsstring \<Rightarrow> jsstring" where
  "asciiLower s = map (\<lambda>c. if 65 \<le> c \<and> c \<le> 90 then c + 32 else c) s"

definition asciiUpper :: "jsstring \<Rightarrow> jsstring" where
  "asciiUpper s = map (\<lambda>c. if 97 \<le> c \<and> c \<le> 122 then c - 32 else c) s"

definition asciiSlugify :: "jsstring \<Rightarrow> jsstring" where
  \<comment> \<open>hyphens become spaces, other punctuation is dropped, runs of spaces become one hyphen\<close>
  "asciiSlugify s =
     asciiLower (join (js ''-'')
       (filter (\<lambda>w. w \<noteq> [])
          (splitRuns isSpace False
             (filter (\<lambda>c. isSpace c \<or> (isWordChar c \<and> c \<noteq> 95))
                (map (\<lambda>c. if c = 45 then 32 else c) s)))))"

definition simpleHostname :: "jsstring \<Rightarrow> jsstring option" where
  "simpleHostname s =
     (let after = (if startsWith s (js ''https://'') then Some (drop 8 s)
                   else if startsWith s (js ''http://'') then Some (drop 7 s)
                   else None)
      in case after of
           None \<Rightarrow> None
         | Some r \<Rightarrow>
             (let h = takeWhile (\<lambda>c. c \<notin> set [47, 58, 63, 35]) r
              in if h = [] then None else Some h))"

definition examplePlatform :: platform where
  "examplePlatform =
     \<lparr>toLowerCase = asciiLower,
      toUpperCase = asciiUpper,
      convert = (\<lambda>opts s. s),
      slugify = asciiSlugify,
      JSON_parse_array = (\<lambda>s. if s = js ''[]'' then Some [] else None),
      Number_isZero = (\<lambda>n. False),
      Number_toString = (\<lambda>n. js ''1''),
      URL_hostname = simpleHostname,
      unixtime = (\<lambda>s. if s = js ''2024-01-01T00:00:00Z'' then Some 1704067200
                       else if s = js ''2024-01-02T00:00:00Z'' then Some 1704153600
                       else None)\<rparr>"

definition exampleConfig :: config where
  "exampleConfig =
     \<lparr>TARGET_PROFESSION = js ''motorista'',
      HAS_OPENAI = False,
      AI_PROCESS_LIMIT = Finite 0,
      MAX_JOBS = 1000,
      PROFESSION_KEYWORDS = [js ''motorista'', js ''caminhoneiro''],
      FEED_HOST = js ''feed.example.com''\<rparr>"

text \<open>
  A reply of the model whose HTML section hides each \<open>script\<close> tag behind an empty
  \<open>script\<close> element, and a site address under the top-level name \<open>constructor\<close>.
\<close>

definition xssPayload :: jsstring where
  "xssPayload = js ''<scr<script></script>ipt>alert(1)</scr<script></script>ipt>''"

definition xssReply :: jsstring where
  "xssReply = js ''===DESCRIPTION===Vaga===HTML==='' @ xssPayload @ js ''===TAGS===[]''"

text \<open>
  A configuration for software engineers with a posting that names eight entries of their
  vocabulary, and a store of two jobs that share one tag.
\<close>

definition engineerConfig :: config where
  "engineerConfig = exampleConfig\<lparr>TARGET_PROFESSION := js ''software engineer''\<rparr>"

definition engineerTitle :: jsstring where
  "engineerTitle = js ''javascript python java react node backend frontend full stack''"

definition exampleJob :: "nat \<Rightarrow> jsstring \<Rightarrow> jsstring \<Rightarrow> int \<Rightarrow> job" where
  "exampleJob n g s t =
     \<lparr>j_id = n, j_guid = g, j_source = js ''feed.example.com'', j_title = js ''Motorista'',
      j_company = js ''Acme'', j_description_html = js ''<p>Dirigir</p>'',
      j_description_short = js ''Dirigir'', j_url = js ''https://feed.example.com/'' @ g,
      j_published_at = Some t, j_slug = s, j_tags_csv = js ''motorista'',
      j_created_at = 1704240000\<rparr>"

definition exampleDb :: database where
  "exampleDb =
     \<lparr>db_jobs = [exampleJob 1 (js ''g1'') (js ''motorista-acme'') 1704067200,
                 exampleJob 2 (js ''g2'') (js ''motorista-beta'') 1704153600],
      db_jobs_seq = 2,
      db_tags = [\<lparr>t_id = 1, t_name = js ''motorista'', t_slug = js ''motorista''\<rparr>],
      db_tags_seq = 1,
      db_job_tags = [(1, 1), (2, 1)]\<rparr>"

text \<open>
  A feed run without the model. Two items have the same title and company but different
  guids and dates; a third has its own title and the date of the first.
\<close>

definition exampleClock :: clock where
  "exampleClock = \<lparr>isoNow = js ''2024-01-03T00:00:00Z'', unixNow = 1704240000\<rparr>"

definition emptyDb :: database where
  "emptyDb = \<lparr>db_jobs = [], db_jobs_seq = 0, db_tags = [], db_tags_seq = 0, db_job_tags = []\<rparr>"

definition noModel :: "nat \<Rightarrow> ai_response" where
  "noModel i = CallFails"

definition itemA :: item where
  "itemA = \<lparr>i_title = js ''Motorista'', i_description = js ''Dirigir'', i_company = js ''Acme'',
             i_link = js ''https://feed.example.com/1'', i_guid = js ''g1'',
             i_pubDate = Some (js ''2024-01-01T00:00:00Z'')\<rparr>"

definition itemB :: item where
  "itemB = \<lparr>i_title = js ''Motorista'', i_description = js ''Dirigir'', i_company = js ''Acme'',
             i_link = js ''https://feed.example.com/2'', i_guid = js ''g2'',
             i_pubDate = Some (js ''2024-01-02T00:00:00Z'')\<rparr>"

definition itemC :: item where
  "itemC = \<lparr>i_title = js ''Caminhoneiro'', i_description = js ''Dirigir'',
             i_company = js ''Beta'', i_link = js ''https://feed.example.com/3'',
             i_guid = js ''g3'', i_pubDate = Some (js ''2024-01-01T00:00:00Z'')\<rparr>"

definition tightConfig :: config where
  \<comment> \<open>room for one job\<close>
  "tightConfig = exampleConfig\<lparr>MAX_JOBS := 1\<rparr>"

text \<open>
  Configurations with the model switched on: without a limit, with the limit 1, with the
  limit one half, and with a profession that is the name of a member of
  \<open>Object.prototype\<close>. The model of these runs gives the reply above to every job.
\<close>

definition unlimitedConfig :: config where
  "unlimitedConfig = exampleConfig\<lparr>HAS_OPENAI := True\<rparr>"

definition limitedConfig :: config where
  "limitedConfig = exampleConfig\<lparr>HAS_OPENAI := True, AI_PROCESS_LIMIT := Finite 1\<rparr>"

definition halfConfig :: config where
  "halfConfig = exampleConfig\<lparr>HAS_OPENAI := True, AI_PROCESS_LIMIT := Finite (1 / 2)\<rparr>"

definition constructorConfig :: config where
  "constructorConfig =
     exampleConfig\<lparr>TARGET_PROFESSION := js ''constructor'', HAS_OPENAI := True\<rparr>"


definition exampleRaw :: "item \<Rightarrow> int \<Rightarrow> raw_job" where
  "exampleRaw it t =
     \<lparr>rawTitle = i_title it, rawCompany = i_company it, rawDescription = i_description it,
      raw_guid = i_guid it, raw_source = js ''feed.example.com'', raw_url = i_link it,
      raw_published_at = Some t\<rparr>"

section \<open>Properties of the tag normaliser\<close>

lemma uniqLoop_Cons_cases:
  assumes "uniqLoop pf (t # ts) seen out = Inr res"
  obtains (skip) "uniqLoop pf ts seen out = Inr res"
      "falsy pf t \<or> (\<exists>s. String_of pf t = Inr s
          \<and> (toLowerCase pf (trim s) = [] \<or> toLowerCase pf (trim s) \<in> seen))"
    | (push) s where "\<not> falsy pf t" "String_of pf t = Inr s"
      "toLowerCase pf (trim s) \<noteq> []" "toLowerCase pf (trim s) \<notin> seen"
      "uniqLoop pf ts (insert (toLowerCase pf (trim s)) seen) (out @ [toLowerCase pf (trim s)])
         = Inr res"
  using assms by (auto simp: Let_def split: if_splits sum.splits)

lemma uniqLoop_set_mono: "uniqLoop pf ts seen out = Inr res \<Longrightarrow> set out \<subseteq> set res"
proof (induction ts arbitrary: seen out)
  case Nil
  then show ?case by simp
next
  case (Cons t ts)
  from Cons.prems show ?case
  proof (cases rule: uniqLoop_Cons_cases)
    case skip
    from Cons.IH[OF skip(1)] show ?thesis .
  next
    case (push s)
    from Cons.IH[OF push(5)] show ?thesis by simp
  qed
qed

lemma uniqLoop_length:
  "uniqLoop pf ts seen out = Inr res \<Longrightarrow> length res \<le> length out + length ts"
proof (induction ts arbitrary: seen out)
  case Nil
  then show ?case by simp
next
  case (Cons t ts)
  from Cons.prems show ?case
  proof (cases rule: uniqLoop_Cons_cases)
    case skip
    from Cons.IH[OF skip(1)] show ?thesis by simp
  next
    case (push s)
    from Cons.IH[OF push(5)] show ?thesis by simp
  qed
qed

lemma uniqLoop_distinct:
  "uniqLoop pf ts seen out = Inr res \<Longrightarrow> distinct out \<Longrightarrow> set out \<subseteq> seen \<Longrightarrow> distinct res"
proof (induction ts arbitrary: seen out)
  case Nil
  then show ?case by simp
next
  case (Cons t ts)
  from Cons.prems(1) show ?case
  proof (cases rule: uniqLoop_Cons_cases)
    case skip
    from Cons.IH[OF skip(1) Cons.prems(2) Cons.prems(3)] show ?thesis .
  next
    case (push s)
    have "distinct (out @ [toLowerCase pf (trim s)])"
      using Cons.prems(2) Cons.prems(3) push(4) by auto
    moreover have "set (out @ [toLowerCase pf (trim s)]) \<subseteq> insert (toLowerCase pf (trim s)) seen"
      using Cons.prems(3) by auto
    ultimately show ?thesis by (rule Cons.IH[OF push(5)])
  qed
qed

lemma uniqLoop_nonempty:
  "uniqLoop pf ts seen out = Inr res \<Longrightarrow> [] \<notin> set out \<Longrightarrow> [] \<notin> set res"
proof (induction ts arbitrary: seen out)
  case Nil
  then show ?case by simp
next
  case (Cons t ts)
  from Cons.prems(1) show ?case
  proof (cases rule: uniqLoop_Cons_cases)
    case skip
    from Cons.IH[OF skip(1) Cons.prems(2)] show ?thesis .
  next
    case (push s)
    have "[] \<notin> set (out @ [toLowerCase pf (trim s)])"
      using Cons.prems(2) push(3) by auto
    then show ?thesis by (rule Cons.IH[OF push(5)])
  qed
qed

lemma uniqLoop_form:
  "uniqLoop pf ts seen out = Inr res \<Longrightarrow> x \<in> set res
     \<Longrightarrow> x \<in> set out \<or> (\<exists>s. x = toLowerCase pf (trim s))"
proof (induction ts arbitrary: seen out)
  case Nil
  then show ?case by simp
next
  case (Cons t ts)
  from Cons.prems(1) show ?case
  proof (cases rule: uniqLoop_Cons_cases)
    case skip
    from Cons.IH[OF skip(1) Cons.prems(2)] show ?thesis .
  next
    case (push s)
    from Cons.IH[OF push(5) Cons.prems(2)] show ?thesis by auto
  qed
qed

lemma uniqLoop_keeps:
  "uniqLoop pf ts seen out = Inr res \<Longrightarrow> t \<in> set ts \<Longrightarrow> \<not> falsy pf t
     \<Longrightarrow> String_of pf t = Inr s \<Longrightarrow> toLowerCase pf (trim s) \<noteq> [] \<Longrightarrow> seen \<subseteq> set out
     \<Longrightarrow> toLowerCase pf (trim s) \<in> set res"
proof (induction ts arbitrary: seen out)
  case Nil
  then show ?case by simp
next
  case (Cons u us)
  from Cons.prems(1) show ?case
  proof (cases rule: uniqLoop_Cons_cases)
    case skip
    show ?thesis
    proof (cases "t = u")
      case True
      with skip(2) Cons.prems(3) Cons.prems(4) Cons.prems(5)
      have "toLowerCase pf (trim s) \<in> seen" by auto
      then have "toLowerCase pf (trim s) \<in> set out" using Cons.prems(6) by auto
      then show ?thesis using uniqLoop_set_mono[OF skip(1)] by auto
    next
      case False
      with Cons.prems(2) have "t \<in> set us" by simp
      from Cons.IH[OF skip(1) this Cons.prems(3) Cons.prems(4) Cons.prems(5) Cons.prems(6)]
      show ?thesis .
    qed
  next
    case (push s')
    let ?y = "toLowerCase pf (trim s')"
    have sub: "insert ?y seen \<subseteq> set (out @ [?y])"
      using Cons.prems(6) by auto
    show ?thesis
    proof (cases "t = u")
      case True
      with push(2) Cons.prems(4) have "s' = s" by simp
      then have "toLowerCase pf (trim s) \<in> set (out @ [?y])" by simp
      then show ?thesis using uniqLoop_set_mono[OF push(5)] by blast
    next
      case False
      with Cons.prems(2) have "t \<in> set us" by simp
      from Cons.IH[OF push(5) this Cons.prems(3) Cons.prems(4) Cons.prems(5) sub]
      show ?thesis .
    qed
  qed
qed

lemma uniqLoop_returns:
  "\<forall>v \<in> set vs. \<exists>s. String_of pf v = Inr s \<Longrightarrow> \<exists>res. uniqLoop pf vs seen out = Inr res"
proof (induction vs arbitrary: seen out)
  case Nil
  show ?case by simp
next
  case (Cons v vs)
  then obtain s where s: "String_of pf v = Inr s" by auto
  have "\<exists>res. uniqLoop pf vs seen' out' = Inr res" for seen' out'
    using Cons by simp
  from this[of seen out] this[of "insert (toLowerCase pf (trim s)) seen"
      "out @ [toLowerCase pf (trim s)]"]
  show ?case by (simp add: s Let_def)
qed

lemma uniqNormTags_Inr:
  "uniqNormTags pf ts = Inr res
     \<longleftrightarrow> (\<exists>full. uniqLoop pf ts {} [] = Inr full \<and> res = take 8 full)"
  by (cases "uniqLoop pf ts {} []") (auto simp: uniqNormTags_def)

lemma uniqNormTags_returns: "\<exists>res. uniqNormTags pf (map Str xs) = Inr res"
  using uniqLoop_returns[of "map Str xs" pf "{}" "[]"] by (auto simp: uniqNormTags_Inr)

lemma uniqNormTags_length: "uniqNormTags pf ts = Inr res \<Longrightarrow> length res \<le> 8"
  by (auto simp: uniqNormTags_Inr)

lemma uniqNormTags_nonempty: "uniqNormTags pf ts = Inr res \<Longrightarrow> [] \<notin> set res"
  using uniqLoop_nonempty[of pf ts "{}" "[]"] by (auto simp: uniqNormTags_Inr dest: in_set_takeD)

lemma uniqNormTags_distinct: "uniqNormTags pf ts = Inr res \<Longrightarrow> distinct res"
  using uniqLoop_distinct[of pf ts "{}" "[]"] by (auto simp: uniqNormTags_Inr)

lemma uniqNormTags_form:
  "uniqNormTags pf ts = Inr res \<Longrightarrow> x \<in> set res \<Longrightarrow> \<exists>s. x = toLowerCase pf (trim s)"
  using uniqLoop_form[of pf ts "{}" "[]" _ x] by (auto simp: uniqNormTags_Inr dest: in_set_takeD)

lemma uniqNormTags_lower:
  assumes "\<forall>s. toLowerCase pf (toLowerCase pf s) = toLowerCase pf s"
    and "uniqNormTags pf ts = Inr res" and "x \<in> set res"
  shows "toLowerCase pf x = x"
  using uniqNormTags_form[OF assms(2) assms(3)] assms(1) by auto

lemma uniqNormTags_caseless:
  assumes "\<forall>s. toLowerCase pf (toLowerCase pf s) = toLowerCase pf s"
    and "uniqNormTags pf ts = Inr res"
  shows "distinct (map (toLowerCase pf) res)"
proof -
  have "map (toLowerCase pf) res = res"
    using uniqNormTags_lower[OF assms] by (simp add: map_idI)
  then show ?thesis using uniqNormTags_distinct[OF assms(2)] by simp
qed

lemma uniqNormTags_keeps:
  assumes "uniqNormTags pf ts = Inr res" and "t \<in> set ts" and "\<not> falsy pf t"
    and "String_of pf t = Inr s" and "toLowerCase pf (trim s) \<noteq> []" and "length ts \<le> 8"
  shows "toLowerCase pf (trim s) \<in> set res"
proof -
  obtain full where full: "uniqLoop pf ts {} [] = Inr full" and res: "res = take 8 full"
    using assms(1) by (auto simp: uniqNormTags_Inr)
  have "length full \<le> 8"
    using uniqLoop_length[OF full] assms(6) by simp
  then have "res = full" using res by simp
  then show ?thesis
    using uniqLoop_keeps[OF full assms(2) assms(3) assms(4) assms(5)] by simp
qed

lemma Warehouse_undefined: "getProp PROFESSION_TAGS (js '' Warehouse'') = Undefined"
  by (simp add: getProp_def PROFESSION_TAGS_def objectPrototypeKeys_def js_def)

lemma getProp_not_inherited: "k \<notin> set objectPrototypeKeys \<Longrightarrow> getProp obj k \<noteq> Inherited"
  by (simp add: getProp_def split: option.splits)

lemma extractTags_returns:
  assumes "toLowerCase pf (TARGET_PROFESSION cfg) \<notin> set objectPrototypeKeys"
  shows "\<exists>ts. extractTags pf cfg title company html = Inr ts"
proof (cases "getProp PROFESSION_TAGS (toLowerCase pf (TARGET_PROFESSION cfg))")
  case (Own voc)
  show ?thesis
    unfolding extractTags_def Let_def Own property.case sum.case
    by (rule uniqNormTags_returns)
next
  case Inherited
  with getProp_not_inherited[OF assms, of PROFESSION_TAGS] show ?thesis by simp
next
  case Undefined
  show ?thesis
    unfolding extractTags_def Let_def Undefined Warehouse_undefined property.case sum.case
    by (rule uniqNormTags_returns)
qed

lemma extractTags_throws:
  assumes "getProp PROFESSION_TAGS (toLowerCase pf (TARGET_PROFESSION cfg)) = Inherited"
  shows "extractTags pf cfg title company html = Inl TypeError"
  using assms by (simp add: extractTags_def Let_def)

lemma extractTags_uniq:
  "extractTags pf cfg title company html = Inr ts \<Longrightarrow> \<exists>vs. uniqNormTags pf vs = Inr ts"
  by (auto simp: extractTags_def Let_def split: sum.splits)

lemma fallback_tags:
  "fallback pf cfg plain title company html = Inr r
     \<Longrightarrow> extractTags pf cfg title company html = Inr (r_tags r) \<and> \<not> r_usedAI r"
  by (auto simp: fallback_def Let_def split: sum.splits)

lemma fallback_returns:
  "toLowerCase pf (TARGET_PROFESSION cfg) \<notin> set objectPrototypeKeys
     \<Longrightarrow> \<exists>r. fallback pf cfg plain title company html = Inr r"
  using extractTags_returns[of pf cfg title company html]
  by (auto simp: fallback_def Let_def)

lemma rewriteJobRich_no_ai:
  "\<not> HAS_OPENAI cfg \<or> \<not> useAI \<or> ai = CallFails
     \<Longrightarrow> rewriteJobRich pf cfg ai title company html useAI
           = fallback pf cfg (take 9000 (convert pf Wordwrap120IgnoreHref html)) title company html"
  by (auto simp: rewriteJobRich_def Let_def)

lemma tags_choice:
  assumes "(case (case tp of
                    Some vs \<Rightarrow> uniqNormTags pf vs
                  | None \<Rightarrow>
                      (case ex of Inl e \<Rightarrow> Inl e | Inr ts \<Rightarrow> uniqNormTags pf (map Str ts))) of
              Inl e \<Rightarrow> fb
            | Inr tags \<Rightarrow> Inr (mk tags)) = res"
  shows "res = fb \<or> (\<exists>vs tags. uniqNormTags pf vs = Inr tags \<and> res = Inr (mk tags))"
  using assms by (auto split: option.splits sum.splits)

lemma rewriteJobRich_cases:
  "rewriteJobRich pf cfg ai title company html useAI
     = fallback pf cfg (take 9000 (convert pf Wordwrap120IgnoreHref html)) title company html
   \<or> (\<exists>short h vs tags. uniqNormTags pf vs = Inr tags
         \<and> rewriteJobRich pf cfg ai title company html useAI
             = Inr \<lparr>r_short = short, r_html = h, r_tags = tags, r_usedAI = True\<rparr>)"
proof (cases "\<not> HAS_OPENAI cfg \<or> \<not> useAI \<or> ai = CallFails")
  case True
  then show ?thesis by (simp add: rewriteJobRich_no_ai)
next
  case False
  then obtain content where ai: "ai = Content content" and on: "HAS_OPENAI cfg" "useAI"
    by (cases ai) auto
  have "\<exists>tp ex short h. rewriteJobRich pf cfg ai title company html useAI
      = (case (case tp of
                 Some vs \<Rightarrow> uniqNormTags pf vs
               | None \<Rightarrow>
                   (case ex of Inl e \<Rightarrow> Inl e | Inr ts \<Rightarrow> uniqNormTags pf (map Str ts))) of
           Inl e \<Rightarrow>
             fallback pf cfg (take 9000 (convert pf Wordwrap120IgnoreHref html)) title company
               html
         | Inr tags \<Rightarrow> Inr \<lparr>r_short = short, r_html = h, r_tags = tags, r_usedAI = True\<rparr>)"
    unfolding rewriteJobRich_def Let_def ai using on
    by (simp only: simp_thms if_False ai_response.case) blast
  then obtain tp ex short h where eq: "rewriteJobRich pf cfg ai title company html useAI
      = (case (case tp of
                 Some vs \<Rightarrow> uniqNormTags pf vs
               | None \<Rightarrow>
                   (case ex of Inl e \<Rightarrow> Inl e | Inr ts \<Rightarrow> uniqNormTags pf (map Str ts))) of
           Inl e \<Rightarrow>
             fallback pf cfg (take 9000 (convert pf Wordwrap120IgnoreHref html)) title company
               html
         | Inr tags \<Rightarrow> Inr \<lparr>r_short = short, r_html = h, r_tags = tags, r_usedAI = True\<rparr>)"
    by (elim exE)
  from tags_choice[OF eq[symmetric]] show ?thesis
    by blast
qed

lemma rewriteJobRich_tags:
  assumes "rewriteJobRich pf cfg ai title company html useAI = Inr r"
  shows "\<exists>vs. uniqNormTags pf vs = Inr (r_tags r)"
  using rewriteJobRich_cases[of pf cfg ai title company html useAI]
proof (elim disjE exE conjE)
  assume "rewriteJobRich pf cfg ai title company html useAI
     = fallback pf cfg (take 9000 (convert pf Wordwrap120IgnoreHref html)) title company html"
  with assms have "extractTags pf cfg title company html = Inr (r_tags r)"
    using fallback_tags by metis
  then show ?thesis by (rule extractTags_uniq)
next
  fix short h vs tags
  assume "uniqNormTags pf vs = Inr tags"
    and "rewriteJobRich pf cfg ai title company html useAI
           = Inr \<lparr>r_short = short, r_html = h, r_tags = tags, r_usedAI = True\<rparr>"
  with assms show ?thesis by auto
qed

lemma rewriteJobRich_returns:
  assumes "toLowerCase pf (TARGET_PROFESSION cfg) \<notin> set objectPrototypeKeys"
  shows "\<exists>r. rewriteJobRich pf cfg ai title company html useAI = Inr r"
  using fallback_returns[OF assms,
      of "take 9000 (convert pf Wordwrap120IgnoreHref html)" title company html]
    rewriteJobRich_cases[of pf cfg ai title company html useAI]
  by (elim disjE exE conjE) simp_all

section \<open>The example platform\<close>

lemma asciiLower_idem: "asciiLower (asciiLower s) = asciiLower s"
  by (induction s) (auto simp: asciiLower_def)

lemma example_profession_key:
  "toLowerCase examplePlatform (TARGET_PROFESSION exampleConfig) \<notin> set objectPrototypeKeys"
  by (simp add: examplePlatform_def exampleConfig_def asciiLower_def objectPrototypeKeys_def
        js_def)

section \<open>Tags\<close>

text \<open>
  C2. Whatever \<open>extractTags\<close> returns, and whatever tag list \<open>rewriteJobRich\<close> returns on
  either path, has at most 8 entries, none of them empty, no two of them equal, each the
  lower-casing of a trimmed string; where lower-casing twice is lower-casing once, no two
  entries are equal up to case. Both functions return a value unless the lower-cased
  profession names a member of \<open>Object.prototype\<close>.
\<close>

theorem tag_bound:
  "(extractTags pf cfg title company html = Inr ts \<longrightarrow>
      length ts \<le> 8 \<and> [] \<notin> set ts \<and> distinct ts
      \<and> (\<forall>t \<in> set ts. \<exists>s. t = toLowerCase pf (trim s))
      \<and> ((\<forall>s. toLowerCase pf (toLowerCase pf s) = toLowerCase pf s)
            \<longrightarrow> distinct (map (toLowerCase pf) ts)))
   \<and> (rewriteJobRich pf cfg ai title company html useAI = Inr r \<longrightarrow>
      length (r_tags r) \<le> 8 \<and> [] \<notin> set (r_tags r) \<and> distinct (r_tags r)
      \<and> (\<forall>t \<in> set (r_tags r). \<exists>s. t = toLowerCase pf (trim s))
      \<and> ((\<forall>s. toLowerCase pf (toLowerCase pf s) = toLowerCase pf s)
            \<longrightarrow> distinct (map (toLowerCase pf) (r_tags r))))
   \<and> (toLowerCase pf (TARGET_PROFESSION cfg) \<notin> set objectPrototypeKeys \<longrightarrow>
        (\<exists>ts'. extractTags pf cfg title company html = Inr ts')
        \<and> (\<exists>r'. rewriteJobRich pf cfg ai title company html useAI = Inr r'))"
proof -
  have norm: "length res \<le> 8 \<and> [] \<notin> set res \<and> distinct res
      \<and> (\<forall>t \<in> set res. \<exists>s. t = toLowerCase pf (trim s))
      \<and> ((\<forall>s. toLowerCase pf (toLowerCase pf s) = toLowerCase pf s)
            \<longrightarrow> distinct (map (toLowerCase pf) res))"
    if "uniqNormTags pf vs = Inr res" for vs res
    using uniqNormTags_length[OF that] uniqNormTags_nonempty[OF that]
      uniqNormTags_distinct[OF that] uniqNormTags_form[OF that]
      uniqNormTags_caseless[OF _ that]
    by blast
  show ?thesis
  proof (intro conjI impI)
    assume "extractTags pf cfg title company html = Inr ts"
    then obtain vs where "uniqNormTags pf vs = Inr ts"
      using extractTags_uniq by blast
    then show "length ts \<le> 8" "[] \<notin> set ts" "distinct ts"
      "\<forall>t \<in> set ts. \<exists>s. t = toLowerCase pf (trim s)"
      using norm[of vs ts] by simp_all
  next
    assume "extractTags pf cfg title company html = Inr ts"
      and "\<forall>s. toLowerCase pf (toLowerCase pf s) = toLowerCase pf s"
    moreover obtain vs where "uniqNormTags pf vs = Inr ts"
      using calculation(1) extractTags_uniq by blast
    ultimately show "distinct (map (toLowerCase pf) ts)"
      using norm[of vs ts] by simp
  next
    assume "rewriteJobRich pf cfg ai title company html useAI = Inr r"
    then obtain vs where "uniqNormTags pf vs = Inr (r_tags r)"
      using rewriteJobRich_tags by blast
    then show "length (r_tags r) \<le> 8" "[] \<notin> set (r_tags r)" "distinct (r_tags r)"
      "\<forall>t \<in> set (r_tags r). \<exists>s. t = toLowerCase pf (trim s)"
      using norm[of vs "r_tags r"] by simp_all
  next
    assume "rewriteJobRich pf cfg ai title company html useAI = Inr r"
      and "\<forall>s. toLowerCase pf (toLowerCase pf s) = toLowerCase pf s"
    moreover obtain vs where "uniqNormTags pf vs = Inr (r_tags r)"
      using calculation(1) rewriteJobRich_tags by blast
    ultimately show "distinct (map (toLowerCase pf) (r_tags r))"
      using norm[of vs "r_tags r"] by simp
  next
    assume "toLowerCase pf (TARGET_PROFESSION cfg) \<notin> set objectPrototypeKeys"
    then show "\<exists>ts'. extractTags pf cfg title company html = Inr ts'"
      "\<exists>r'. rewriteJobRich pf cfg ai title company html useAI = Inr r'"
      by (rule extractTags_returns, rule rewriteJobRich_returns)
  qed
qed

theorem tag_bound_witness:
  "toLowerCase examplePlatform (TARGET_PROFESSION exampleConfig) \<notin> set objectPrototypeKeys
   \<and> (\<exists>r. rewriteJobRich examplePlatform exampleConfig CallFails (js ''Motorista'')
              (js ''Acme'') (js ''Full-time'') False = Inr r
          \<and> length (r_tags r) \<le> 8 \<and> [] \<notin> set (r_tags r)
          \<and> distinct (map asciiLower (r_tags r)))"
proof -
  have idem: "\<forall>s. toLowerCase examplePlatform (toLowerCase examplePlatform s)
                = toLowerCase examplePlatform s"
    by (simp add: examplePlatform_def asciiLower_idem)
  obtain r where r: "rewriteJobRich examplePlatform exampleConfig CallFails (js ''Motorista'')
              (js ''Acme'') (js ''Full-time'') False = Inr r"
    using tag_bound[of examplePlatform exampleConfig "js ''Motorista''" "js ''Acme''"
        "js ''Full-time''" _ CallFails False] example_profession_key
    by blast
  have "length (r_tags r) \<le> 8 \<and> [] \<notin> set (r_tags r)
          \<and> distinct (map (toLowerCase examplePlatform) (r_tags r))"
    using tag_bound[of examplePlatform exampleConfig "js ''Motorista''" "js ''Acme''"
        "js ''Full-time''" _ CallFails False r] r idem
    by blast
  then show ?thesis
    using r example_profession_key by (auto simp: examplePlatform_def)
qed

text \<open>
  When the call of the model fails, \<open>rewriteJobRich\<close> gives exactly what it gives with the
  model switched off, whatever the model would have answered there; and that is a returned
  value with \<open>usedAI = false\<close> unless the lower-cased profession names a member of
  \<open>Object.prototype\<close>.
\<close>

lemma ai_failure_falls_back:
  "rewriteJobRich pf cfg CallFails title company html useAI
     = rewriteJobRich pf cfg ai title company html False
   \<and> (toLowerCase pf (TARGET_PROFESSION cfg) \<notin> set objectPrototypeKeys \<longrightarrow>
        (\<exists>r. rewriteJobRich pf cfg CallFails title company html useAI = Inr r
              \<and> \<not> r_usedAI r))"
proof (intro conjI impI)
  show "rewriteJobRich pf cfg CallFails title company html useAI
          = rewriteJobRich pf cfg ai title company html False"
    by (simp add: rewriteJobRich_no_ai)
next
  assume "toLowerCase pf (TARGET_PROFESSION cfg) \<notin> set objectPrototypeKeys"
  then obtain r where "fallback pf cfg (take 9000 (convert pf Wordwrap120IgnoreHref html))
      title company html = Inr r"
    using fallback_returns by blast
  then show "\<exists>r. rewriteJobRich pf cfg CallFails title company html useAI = Inr r
                \<and> \<not> r_usedAI r"
    using fallback_tags by (auto simp: rewriteJobRich_no_ai)
qed

text \<open>
  C8. Without the model (not requested, or not configured) the result of \<open>rewriteJobRich\<close>
  depends on the title, the company and the markup alone: it is the same whatever the
  model would have answered, it has \<open>usedAI = false\<close>, and it is a returned value unless
  the lower-cased profession names a member of \<open>Object.prototype\<close>.
\<close>

theorem fallback_determinism:
  "rewriteJobRich pf cfg ai1 title company html False
     = rewriteJobRich pf cfg ai2 title company html False
   \<and> (\<not> HAS_OPENAI cfg \<longrightarrow>
        rewriteJobRich pf cfg ai1 title company html useAI1
          = rewriteJobRich pf cfg ai2 title company html useAI2)
   \<and> (rewriteJobRich pf cfg ai1 title company html False = Inr r \<longrightarrow> \<not> r_usedAI r)
   \<and> (toLowerCase pf (TARGET_PROFESSION cfg) \<notin> set objectPrototypeKeys \<longrightarrow>
        (\<exists>r'. rewriteJobRich pf cfg ai1 title company html False = Inr r'))"
  using rewriteJobRich_returns[of pf cfg ai1 title company html False]
    fallback_tags[of pf cfg "take 9000 (convert pf Wordwrap120IgnoreHref html)" title company
      html r]
  by (auto simp: rewriteJobRich_no_ai)

theorem fallback_determinism_witness:
  "\<not> HAS_OPENAI exampleConfig
   \<and> toLowerCase examplePlatform (TARGET_PROFESSION exampleConfig) \<notin> set objectPrototypeKeys
   \<and> rewriteJobRich examplePlatform exampleConfig CallFails
        (js ''Motorista'') (js ''Acme'') (js ''Dirigir'') True
      = rewriteJobRich examplePlatform exampleConfig (Content (Some (js ''===TAGS===[]'')))
        (js ''Motorista'') (js ''Acme'') (js ''Dirigir'') False
   \<and> (\<exists>r. rewriteJobRich examplePlatform exampleConfig CallFails
              (js ''Motorista'') (js ''Acme'') (js ''Dirigir'') False = Inr r \<and> \<not> r_usedAI r)"
proof -
  have off: "\<not> HAS_OPENAI exampleConfig"
    by (simp add: exampleConfig_def)
  note d = fallback_determinism[of examplePlatform exampleConfig CallFails "js ''Motorista''"
      "js ''Acme''" "js ''Dirigir''" _ True False]
  obtain r where r: "rewriteJobRich examplePlatform exampleConfig CallFails
              (js ''Motorista'') (js ''Acme'') (js ''Dirigir'') False = Inr r"
    using d example_profession_key by blast
  have "\<not> r_usedAI r"
    using d[of _ r] r by blast
  moreover have "rewriteJobRich examplePlatform exampleConfig CallFails
        (js ''Motorista'') (js ''Acme'') (js ''Dirigir'') True
      = rewriteJobRich examplePlatform exampleConfig (Content (Some (js ''===TAGS===[]'')))
        (js ''Motorista'') (js ''Acme'') (js ''Dirigir'') False"
    using d[of "Content (Some (js ''===TAGS===[]''))"] off by blast
  ultimately show ?thesis
    using off r example_profession_key by blast
qed

section \<open>Evaluating the rewriter\<close>

lemmas regex_defs =
  removeAll_def seqs_def alts_def Plus_def Opt_def notChar_def anyChar_def canon_def
  atWordBoundary_def isWordChar_def isSpace_def isLineTerminator_def matchedText_def group1_def
  re_exec.simps re_test_def

lemma extractTags_eval:
  assumes "toLowerCase pf (title @ js '' '' @ company @ js '' '' @ take 1000 (convert pf Wordwrap120 html))
             = text"
    and "getProp PROFESSION_TAGS (toLowerCase pf (TARGET_PROFESSION cfg)) = Own ts"
    and "filter (\<lambda>tag. includes_str text tag) ts = found"
    and "\<not> re_test (alts [js ''remote'', js ''homeoffice'', js ''home office'',
                           js ''work from home'', js ''telecommute'']) text"
    and "\<not> re_test (alts [js ''vollzeit'', js ''full time'', js ''full-time'']) text"
    and "\<not> re_test (alts [js ''teilzeit'', js ''part time'', js ''part-time'']) text"
    and "\<not> re_test (alts [js ''festanstellung'', js ''unbefristet'', js ''permanent'']) text"
    and "\<not> re_test (alts [js ''befristet'', js ''temporary'', js ''zeitarbeit'',
                           js ''contract'']) text"
  shows "extractTags pf cfg title company html
           = uniqNormTags pf (map Str (found @ [toLowerCase pf (TARGET_PROFESSION cfg)]))"
  using assms by (simp add: extractTags_def Let_def)

lemma rewriteJobRich_ai_eval:
  assumes "HAS_OPENAI cfg"
    and "trim (sectionBetween (js ''===DESCRIPTION==='') (js ''===HTML==='') out) = short0"
    and "short0 \<noteq> []"
    and "take 600 (trim (convert pf Wordwrap120 short0)) = short"
    and "trim (sectionBetween (js ''===HTML==='') (js ''===TAGS==='') out) = html0"
    and "html0 \<noteq> []"
    and "stripDocumentTags html0 = html1"
    and "\<not> length html1 < 50"
    and "(case re_exec (seqs [Lit (js ''===TAGS===''), Star (Cls isSpace),
                              Group (Star anyChar), Eos]) None out of
            None \<Rightarrow> []
          | Some (_, st) \<Rightarrow> (case group1 st of None \<Rightarrow> [] | Some g \<Rightarrow> g)) = tagsText"
    and "(case re_exec (seqs [Lit (js ''[''), Star anyChar, Lit (js '']'')]) None tagsText of
            None \<Rightarrow> None
          | Some (m, _) \<Rightarrow> JSON_parse_array pf m) = Some vs"
    and "uniqNormTags pf vs = Inr tags"
  shows "rewriteJobRich pf cfg (Content (Some out)) title company html True
           = Inr \<lparr>r_short = short, r_html = sanitizeHtml html1, r_tags = tags,
                  r_usedAI = True\<rparr>"
  using assms by (simp add: rewriteJobRich_def Let_def)

lemma xss_short0:
  "trim (sectionBetween (js ''===DESCRIPTION==='') (js ''===HTML==='') xssReply) = js ''Vaga''"
  by (simp add: sectionBetween_def xssReply_def xssPayload_def trim_def js_def regex_defs)

lemma xss_short:
  "take 600 (trim (convert examplePlatform Wordwrap120 (js ''Vaga''))) = js ''Vaga''"
  by (simp add: examplePlatform_def trim_def isSpace_def js_def)

lemma xss_html0:
  "trim (sectionBetween (js ''===HTML==='') (js ''===TAGS==='') xssReply) = xssPayload"
  by (simp add: sectionBetween_def xssReply_def xssPayload_def trim_def js_def regex_defs)

lemma xss_html1: "stripDocumentTags xssPayload = xssPayload"
  by (simp add: stripDocumentTags_def xssPayload_def trim_def js_def regex_defs)

lemma xss_tagsText:
  "(case re_exec (seqs [Lit (js ''===TAGS===''), Star (Cls isSpace),
                        Group (Star anyChar), Eos]) None xssReply of
      None \<Rightarrow> []
    | Some (_, st) \<Rightarrow> (case group1 st of None \<Rightarrow> [] | Some g \<Rightarrow> g)) = js ''[]''"
  by (simp add: xssReply_def xssPayload_def js_def regex_defs)

lemma xss_tagsParsed:
  "(case re_exec (seqs [Lit (js ''[''), Star anyChar, Lit (js '']'')]) None (js ''[]'') of
      None \<Rightarrow> None
    | Some (m, _) \<Rightarrow> JSON_parse_array examplePlatform m) = Some []"
  by (simp add: examplePlatform_def js_def regex_defs)

lemma xss_sanitized: "sanitizeHtml xssPayload = js ''<script>alert(1)</script>''"
  by (simp add: sanitizeHtml_def xssPayload_def js_def regex_defs)

lemma xss_rewrite:
  assumes "HAS_OPENAI cfg"
  shows "rewriteJobRich examplePlatform cfg (Content (Some xssReply)) title company html True
         = Inr \<lparr>r_short = js ''Vaga'', r_html = js ''<script>alert(1)</script>'', r_tags = [],
                r_usedAI = True\<rparr>"
proof -
  have long: "\<not> length xssPayload < 50"
    by (simp add: xssPayload_def js_def)
  have ne: "js ''Vaga'' \<noteq> []" "xssPayload \<noteq> []"
    by (simp_all add: xssPayload_def js_def)
  have none: "uniqNormTags examplePlatform [] = Inr []"
    by (simp add: uniqNormTags_def)
  show ?thesis
    using rewriteJobRich_ai_eval[OF assms xss_short0 ne(1) xss_short xss_html0 ne(2) xss_html1
        long xss_tagsText xss_tagsParsed none, of title company html]
    by (simp add: xss_sanitized)
qed

text \<open>
  C4. Not every reply of the model is made harmless: the sanitiser passes over the markup
  once, so a \<open>script\<close> tag split by an empty \<open>script\<close> element is put together by the very
  removal of that element, and \<open>description_html\<close> then holds a complete \<open>script\<close> element.
\<close>

theorem sanitizer_misses_nested_script:
  "rewriteJobRich examplePlatform (exampleConfig\<lparr>HAS_OPENAI := True\<rparr>)
     (Content (Some xssReply)) (js ''Motorista'') (js ''Acme'') (js ''Dirigir'') True
   = Inr \<lparr>r_short = js ''Vaga'', r_html = js ''<script>alert(1)</script>'', r_tags = [],
          r_usedAI = True\<rparr>"
  by (rule xss_rewrite) simp

theorem sanitizer_misses_nested_script_witness:
  "\<exists>r. rewriteJobRich examplePlatform (exampleConfig\<lparr>HAS_OPENAI := True\<rparr>)
          (Content (Some xssReply)) (js ''Motorista'') (js ''Acme'') (js ''Dirigir'') True
        = Inr r
      \<and> r_usedAI r \<and> includes_str (r_html r) (js ''<script>'')"
  using sanitizer_misses_nested_script by (simp add: js_def)


lemma extractTags_shape:
  assumes "toLowerCase pf (TARGET_PROFESSION cfg) \<notin> set objectPrototypeKeys"
  shows "\<exists>pre. extractTags pf cfg title company html
                 = uniqNormTags pf (map Str (pre @ [toLowerCase pf (TARGET_PROFESSION cfg)]))
               \<and> (map_of PROFESSION_TAGS (toLowerCase pf (TARGET_PROFESSION cfg)) = None
                    \<longrightarrow> length pre \<le> 5)"
proof -
  let ?text = "toLowerCase pf
                 (title @ js '' '' @ company @ js '' '' @ take 1000 (convert pf Wordwrap120 html))"
  let ?signals =
    "(if re_test (alts [js ''remote'', js ''homeoffice'', js ''home office'',
                        js ''work from home'', js ''telecommute'']) ?text
      then [js ''remote''] else [])
     @ (if re_test (alts [js ''vollzeit'', js ''full time'', js ''full-time'']) ?text
        then [js ''full-time''] else [])
     @ (if re_test (alts [js ''teilzeit'', js ''part time'', js ''part-time'']) ?text
        then [js ''part-time''] else [])
     @ (if re_test (alts [js ''festanstellung'', js ''unbefristet'', js ''permanent'']) ?text
        then [js ''permanent''] else [])
     @ (if re_test (alts [js ''befristet'', js ''temporary'', js ''zeitarbeit'',
                          js ''contract'']) ?text
        then [js ''contract''] else [])"
  have few: "length ?signals \<le> 5"
    by simp
  show ?thesis
  proof (cases "map_of PROFESSION_TAGS (toLowerCase pf (TARGET_PROFESSION cfg))")
    case None
    then have "getProp PROFESSION_TAGS (toLowerCase pf (TARGET_PROFESSION cfg)) = Undefined"
      using assms by (simp add: getProp_def)
    then have "extractTags pf cfg title company html
        = uniqNormTags pf (map Str (?signals @ [toLowerCase pf (TARGET_PROFESSION cfg)]))"
      by (simp add: extractTags_def Let_def Warehouse_undefined)
    with few show ?thesis by blast
  next
    case (Some voc)
    then have "getProp PROFESSION_TAGS (toLowerCase pf (TARGET_PROFESSION cfg)) = Own voc"
      by (simp add: getProp_def)
    then have "extractTags pf cfg title company html
        = uniqNormTags pf (map Str ((filter (\<lambda>tag. includes_str ?text tag) voc @ ?signals)
                 @ [toLowerCase pf (TARGET_PROFESSION cfg)]))"
      by (simp add: extractTags_def Let_def)
    with Some show ?thesis by (metis option.distinct(1))
  qed
qed

text \<open>
  C10, as the code has it. \<open>extractTags\<close> appends the lower-cased profession last and then
  keeps the first 8 tags. Unless the lower-cased profession names a member of
  \<open>Object.prototype\<close>, is empty, or is blank once normalised, the returned list is not
  empty; it holds the normalised profession whenever the profession has no entry in the
  vocabulary table, since at most five other tags then come before it.
\<close>

theorem profession_tag_present:
  assumes "toLowerCase pf (TARGET_PROFESSION cfg) \<notin> set objectPrototypeKeys"
    and "toLowerCase pf (TARGET_PROFESSION cfg) \<noteq> []"
    and "toLowerCase pf (trim (toLowerCase pf (TARGET_PROFESSION cfg))) \<noteq> []"
  shows "\<exists>ts. extractTags pf cfg title company html = Inr ts \<and> ts \<noteq> []
           \<and> (map_of PROFESSION_TAGS (toLowerCase pf (TARGET_PROFESSION cfg)) = None
                \<longrightarrow> toLowerCase pf (trim (toLowerCase pf (TARGET_PROFESSION cfg))) \<in> set ts)"
proof -
  let ?p = "toLowerCase pf (TARGET_PROFESSION cfg)"
  obtain pre where ex: "extractTags pf cfg title company html
        = uniqNormTags pf (map Str (pre @ [?p]))"
    and short: "map_of PROFESSION_TAGS ?p = None \<longrightarrow> length pre \<le> 5"
    using extractTags_shape[OF assms(1)] by blast
  let ?vs = "map Str (pre @ [?p])"
  obtain ts where ts: "uniqNormTags pf ?vs = Inr ts"
    using uniqNormTags_returns by blast
  obtain full where full: "uniqLoop pf ?vs {} [] = Inr full" and cut: "ts = take 8 full"
    using ts by (auto simp: uniqNormTags_Inr)
  have mem: "Str ?p \<in> set ?vs" by simp
  have truthy: "\<not> falsy pf (Str ?p)" using assms(2) by simp
  have str: "String_of pf (Str ?p) = Inr ?p" by simp
  have "toLowerCase pf (trim ?p) \<in> set full"
    using uniqLoop_keeps[OF full mem truthy str assms(3)] by simp
  then have "full \<noteq> []" by auto
  then have nonempty: "ts \<noteq> []"
    using cut by simp
  have "toLowerCase pf (trim ?p) \<in> set ts"
    if "map_of PROFESSION_TAGS ?p = None"
  proof -
    have "length ?vs \<le> 8" using short that by simp
    from uniqNormTags_keeps[OF ts mem truthy str assms(3) this] show ?thesis .
  qed
  with ex ts nonempty show ?thesis by simp
qed

theorem profession_tag_present_witness:
  "toLowerCase examplePlatform (TARGET_PROFESSION exampleConfig) \<notin> set objectPrototypeKeys
   \<and> toLowerCase examplePlatform (TARGET_PROFESSION exampleConfig) \<noteq> []
   \<and> map_of PROFESSION_TAGS (toLowerCase examplePlatform (TARGET_PROFESSION exampleConfig)) = None
   \<and> (\<exists>ts. extractTags examplePlatform exampleConfig (js ''Motorista'') (js ''Acme'')
               (js ''Dirigir'') = Inr ts
          \<and> ts \<noteq> [] \<and> js ''motorista'' \<in> set ts)"
proof -
  have p: "toLowerCase examplePlatform (TARGET_PROFESSION exampleConfig) = js ''motorista''"
    by (simp add: examplePlatform_def exampleConfig_def asciiLower_def js_def)
  have n: "toLowerCase examplePlatform (trim (js ''motorista'')) = js ''motorista''"
    by (simp add: examplePlatform_def asciiLower_def trim_def isSpace_def js_def)
  have ne: "js ''motorista'' \<noteq> []"
    by (simp add: js_def)
  have none: "map_of PROFESSION_TAGS (js ''motorista'') = None"
    by (simp add: PROFESSION_TAGS_def js_def)
  show ?thesis
    using profession_tag_present[of examplePlatform exampleConfig "js ''Motorista''"
        "js ''Acme''" "js ''Dirigir''"] example_profession_key
    by (simp add: p n ne none)
qed

lemma engineer_text:
  "toLowerCase examplePlatform
     (engineerTitle @ js '' '' @ [] @ js '' '' @ take 1000 (convert examplePlatform Wordwrap120 []))
   = engineerTitle @ js ''  ''"
  by (simp add: examplePlatform_def asciiLower_def engineerTitle_def js_def)

lemma engineer_vocabulary:
  "getProp PROFESSION_TAGS (toLowerCase examplePlatform (TARGET_PROFESSION engineerConfig))
   = Own [js ''javascript'', js ''python'', js ''java'', js ''react'', js ''node'',
          js ''backend'', js ''frontend'', js ''full stack'', js ''devops'']"
  by (simp add: engineerConfig_def exampleConfig_def examplePlatform_def asciiLower_def
        getProp_def PROFESSION_TAGS_def js_def)

lemma engineer_found:
  "filter (\<lambda>tag. includes_str (engineerTitle @ js ''  '') tag)
     [js ''javascript'', js ''python'', js ''java'', js ''react'', js ''node'',
      js ''backend'', js ''frontend'', js ''full stack'', js ''devops'']
   = [js ''javascript'', js ''python'', js ''java'', js ''react'', js ''node'',
      js ''backend'', js ''frontend'', js ''full stack'']"
  by (simp add: engineerTitle_def js_def)

lemma engineer_remote:
  "\<not> re_test (alts [js ''remote'', js ''homeoffice'', js ''home office'',
                     js ''work from home'', js ''telecommute'']) (engineerTitle @ js ''  '')"
  by (simp add: engineerTitle_def js_def regex_defs)

lemma engineer_full_time:
  "\<not> re_test (alts [js ''vollzeit'', js ''full time'', js ''full-time''])
       (engineerTitle @ js ''  '')"
  by (simp add: engineerTitle_def js_def regex_defs)

lemma engineer_part_time:
  "\<not> re_test (alts [js ''teilzeit'', js ''part time'', js ''part-time''])
       (engineerTitle @ js ''  '')"
  by (simp add: engineerTitle_def js_def regex_defs)

lemma engineer_permanent:
  "\<not> re_test (alts [js ''festanstellung'', js ''unbefristet'', js ''permanent''])
       (engineerTitle @ js ''  '')"
  by (simp add: engineerTitle_def js_def regex_defs)

lemma engineer_contract:
  "\<not> re_test (alts [js ''befristet'', js ''temporary'', js ''zeitarbeit'', js ''contract''])
       (engineerTitle @ js ''  '')"
  by (simp add: engineerTitle_def js_def regex_defs)

lemma engineer_capped:
  "uniqNormTags examplePlatform
     (map Str ([js ''javascript'', js ''python'', js ''java'', js ''react'', js ''node'',
                js ''backend'', js ''frontend'', js ''full stack'']
               @ [toLowerCase examplePlatform (TARGET_PROFESSION engineerConfig)]))
   = Inr [js ''javascript'', js ''python'', js ''java'', js ''react'', js ''node'',
          js ''backend'', js ''frontend'', js ''full stack'']"
  by (simp add: uniqNormTags_def engineerConfig_def exampleConfig_def examplePlatform_def
        asciiLower_def trim_def isSpace_def js_def Let_def)

text \<open>
  C10 as stated fails: with the profession \<open>software engineer\<close> and a posting that names
  eight entries of its vocabulary, the profession is the ninth tag and the cap removes it.
\<close>

theorem profession_tag_cut_off:
  "TARGET_PROFESSION engineerConfig \<noteq> []
   \<and> extractTags examplePlatform engineerConfig engineerTitle [] []
       = Inr [js ''javascript'', js ''python'', js ''java'', js ''react'', js ''node'',
              js ''backend'', js ''frontend'', js ''full stack'']
   \<and> toLowerCase examplePlatform (TARGET_PROFESSION engineerConfig)
       \<notin> set [js ''javascript'', js ''python'', js ''java'', js ''react'', js ''node'',
                js ''backend'', js ''frontend'', js ''full stack'']"
proof -
  have "TARGET_PROFESSION engineerConfig \<noteq> []"
    by (simp add: engineerConfig_def js_def)
  moreover have "toLowerCase examplePlatform (TARGET_PROFESSION engineerConfig)
       \<notin> set [js ''javascript'', js ''python'', js ''java'', js ''react'', js ''node'',
                js ''backend'', js ''frontend'', js ''full stack'']"
    by (simp add: engineerConfig_def examplePlatform_def asciiLower_def js_def)
  moreover have "extractTags examplePlatform engineerConfig engineerTitle [] []
       = Inr [js ''javascript'', js ''python'', js ''java'', js ''react'', js ''node'',
              js ''backend'', js ''frontend'', js ''full stack'']"
    using extractTags_eval[OF engineer_text engineer_vocabulary engineer_found engineer_remote
        engineer_full_time engineer_part_time engineer_permanent engineer_contract]
    by (simp only: engineer_capped)
  ultimately show ?thesis by blast
qed

section \<open>Location\<close>

lemma inferJobLocations_one_place: "length (inferJobLocations pf html title siteUrl) = 1"
  by (simp add: inferJobLocations_def Let_def)

lemma getCountryFromHost_code:
  "getCountryFromHost pf siteUrl = CountryCode c \<Longrightarrow> c \<noteq> []"
  by (auto simp: getCountryFromHost_def Let_def js_def
        split: option.splits property.splits if_splits)

lemma getCountryFromHost_unparseable:
  "URL_hostname pf siteUrl = None \<Longrightarrow> getCountryFromHost pf siteUrl = CountryCode (js ''US'')"
  by (simp add: getCountryFromHost_def)

text \<open>
  C3. The list always holds one place, but its country is not always a country code: the
  table of top-level names is an object literal, so a host under \<open>constructor\<close> finds the
  inherited member of that name, which is truthy, and neither a code of the table nor the
  fallback \<open>US\<close> is returned.
\<close>

theorem country_of_inherited_member:
  "inferJobLocations examplePlatform [] [] (js ''http://jobs.constructor'')
   = [\<lparr>address = \<lparr>addressLocality = None,
                     addressCountry = PrototypeMember (js ''constructor'')\<rparr>\<rparr>]"
  by (simp add: inferJobLocations_def getCountryFromHost_def examplePlatform_def
        simpleHostname_def asciiLower_def getProp_def tldMap_def objectPrototypeKeys_def
        citiesBR_def js_def Let_def)

section \<open>Retention\<close>

text \<open>
  C7, as the code has it. Trimming deletes rows of \<open>jobs\<close> only: the tags and the job-tag
  pairs are left as they are, so the pairs of an evicted job stay behind.
\<close>

theorem trim_keeps_job_tags:
  "db_job_tags (trimJobs cfg db) = db_job_tags db
   \<and> db_tags (trimJobs cfg db) = db_tags db
   \<and> set (db_jobs (trimJobs cfg db)) \<subseteq> set (db_jobs db)"
  by (auto simp: trimJobs_def stmtDeleteOld_def Let_def)

theorem trim_keeps_job_tags_witness:
  "db_job_tags (trimJobs (exampleConfig\<lparr>MAX_JOBS := 1\<rparr>) exampleDb) = [(1, 1), (2, 1)]"
  using trim_keeps_job_tags[of "exampleConfig\<lparr>MAX_JOBS := 1\<rparr>" exampleDb]
  by (simp add: exampleDb_def)

text \<open>
  C7 as stated fails: with room for one job, the older of two jobs is evicted and its pair
  in \<open>job_tags\<close> then names no job.
\<close>

theorem trim_leaves_dangling_job_tags:
  "danglingJobTags exampleDb = []
   \<and> map j_id (db_jobs (trimJobs (exampleConfig\<lparr>MAX_JOBS := 1\<rparr>) exampleDb)) = [2]
   \<and> danglingJobTags (trimJobs (exampleConfig\<lparr>MAX_JOBS := 1\<rparr>) exampleDb) = [(1, 1)]"
  by (simp add: danglingJobTags_def trimJobs_def stmtDeleteOld_def orderByPublished_def
        comesBefore_def exampleDb_def exampleJob_def exampleConfig_def Let_def)
section \<open>The budget of the model\<close>


lemma enrich_stalls:
  assumes "rewriteJobRich pf cfg (ai i) (rawTitle rawJob) (rawCompany rawJob)
             (rawDescription rawJob) (shouldUseAI cfg (aiEnhanced st)) = Inl e"
  shows "enrich pf cfg clk ai i (rawJob # todo) st
         = (Stalled e, st\<lparr>requests := requests st @ [shouldUseAI cfg (aiEnhanced st)]\<rparr>)"
  using assms by (simp add: Let_def)








section \<open>Inserting jobs\<close>

lemma stmtHasGuid_iff: "stmtHasGuid db g \<noteq> None \<longleftrightarrow> g \<in> j_guid ` set (db_jobs db)"
  by (auto simp: stmtHasGuid_def find_None_iff)

lemma foldl_preserves:
  assumes "\<And>d x. g (f d x) = g d"
  shows "g (foldl f d xs) = g d"
  by (induction xs arbitrary: d) (simp_all add: assms)

lemma upsertTagsForJob_jobs:
  "db_jobs (upsertTagsForJob pf db jobId names) = db_jobs db
   \<and> db_jobs_seq (upsertTagsForJob pf db jobId names) = db_jobs_seq db"
proof -
  have step: "db_jobs (case stmtGetTagByName (stmtInsertTag d name slug) name of
                         Some t \<Rightarrow> stmtInsertJobTag (stmtInsertTag d name slug) jobId (t_id t)
                       | None \<Rightarrow> stmtInsertTag d name slug) = db_jobs d
            \<and> db_jobs_seq (case stmtGetTagByName (stmtInsertTag d name slug) name of
                         Some t \<Rightarrow> stmtInsertJobTag (stmtInsertTag d name slug) jobId (t_id t)
                       | None \<Rightarrow> stmtInsertTag d name slug) = db_jobs_seq d"
    for d name slug
    by (cases "stmtGetTagByName (stmtInsertTag d name slug) name")
       (simp_all add: stmtInsertTag_def stmtInsertJobTag_def Let_def)
  show ?thesis
    unfolding upsertTagsForJob_def Let_def
    by (intro conjI foldl_preserves) (simp_all add: step)
qed

lemma insertJob_jobs:
  "db_jobs (insertJob pf now db p) = db_jobs (stmtInsertJob now db p)
   \<and> db_jobs_seq (insertJob pf now db p) = db_jobs_seq (stmtInsertJob now db p)"
  by (simp add: insertJob_def Let_def upsertTagsForJob_jobs split: option.splits)

lemma conflict_iff:
  "list_ex (\<lambda>j. j_guid j = p_guid p \<or> j_slug j = p_slug p) (db_jobs db)
     \<longleftrightarrow> p_guid p \<in> j_guid ` set (db_jobs db) \<or> p_slug p \<in> j_slug ` set (db_jobs db)"
proof
  assume "list_ex (\<lambda>j. j_guid j = p_guid p \<or> j_slug j = p_slug p) (db_jobs db)"
  then obtain j where "j \<in> set (db_jobs db)" "j_guid j = p_guid p \<or> j_slug j = p_slug p"
    by (auto simp: list_ex_iff)
  then show "p_guid p \<in> j_guid ` set (db_jobs db) \<or> p_slug p \<in> j_slug ` set (db_jobs db)"
    by (metis imageI)
next
  assume "p_guid p \<in> j_guid ` set (db_jobs db) \<or> p_slug p \<in> j_slug ` set (db_jobs db)"
  then obtain j where "j \<in> set (db_jobs db)" "j_guid j = p_guid p \<or> j_slug j = p_slug p"
    by (metis imageE)
  then show "list_ex (\<lambda>j. j_guid j = p_guid p \<or> j_slug j = p_slug p) (db_jobs db)"
    by (auto simp: list_ex_iff)
qed

lemma insertJob_ignored:
  assumes "p_guid p \<in> j_guid ` set (db_jobs db) \<or> p_slug p \<in> j_slug ` set (db_jobs db)"
  shows "db_jobs (insertJob pf now db p) = db_jobs db"
    and "db_jobs_seq (insertJob pf now db p)
           = Suc (fold max (map j_id (db_jobs db)) (db_jobs_seq db))"
proof -
  have "stmtInsertJob now db p
          = db\<lparr>db_jobs_seq := Suc (fold max (map j_id (db_jobs db)) (db_jobs_seq db))\<rparr>"
    using assms by (simp add: stmtInsertJob_def Let_def conflict_iff)
  then show "db_jobs (insertJob pf now db p) = db_jobs db"
    and "db_jobs_seq (insertJob pf now db p)
           = Suc (fold max (map j_id (db_jobs db)) (db_jobs_seq db))"
    by (simp_all add: insertJob_jobs)
qed

lemma insertJob_fresh:
  assumes "p_guid p \<notin> j_guid ` set (db_jobs db)" and "p_slug p \<notin> j_slug ` set (db_jobs db)"
  shows "db_jobs (insertJob pf now db p) = db_jobs db @
           [\<lparr>j_id = Suc (fold max (map j_id (db_jobs db)) (db_jobs_seq db)),
             j_guid = p_guid p, j_source = p_source p, j_title = p_title p,
             j_company = p_company p, j_description_html = p_description_html p,
             j_description_short = p_description_short p, j_url = p_url p,
             j_published_at = p_published_at p, j_slug = p_slug p,
             j_tags_csv = p_tags_csv p, j_created_at = now\<rparr>]"
    and "db_jobs_seq (insertJob pf now db p)
           = Suc (fold max (map j_id (db_jobs db)) (db_jobs_seq db))"
  using assms by (simp_all add: insertJob_jobs stmtInsertJob_def Let_def conflict_iff)

lemma insertJob_mono:
  "j_guid ` set (db_jobs db) \<subseteq> j_guid ` set (db_jobs (insertJob pf now db p))"
  "j_slug ` set (db_jobs db) \<subseteq> j_slug ` set (db_jobs (insertJob pf now db p))"
proof -
  have "set (db_jobs db) \<subseteq> set (db_jobs (insertJob pf now db p))"
  proof (cases "p_guid p \<in> j_guid ` set (db_jobs db) \<or> p_slug p \<in> j_slug ` set (db_jobs db)")
    case True
    then show ?thesis by (simp add: insertJob_ignored)
  next
    case False
    then show ?thesis by (auto simp: insertJob_fresh)
  qed
  then show "j_guid ` set (db_jobs db) \<subseteq> j_guid ` set (db_jobs (insertJob pf now db p))"
    and "j_slug ` set (db_jobs db) \<subseteq> j_slug ` set (db_jobs (insertJob pf now db p))"
    by blast+
qed

lemma insertJob_covers:
  "p_guid p \<in> j_guid ` set (db_jobs (insertJob pf now db p))
   \<or> p_slug p \<in> j_slug ` set (db_jobs (insertJob pf now db p))"
proof (cases "p_guid p \<in> j_guid ` set (db_jobs db) \<or> p_slug p \<in> j_slug ` set (db_jobs db)")
  case True
  then show ?thesis by (simp add: insertJob_ignored)
next
  case False
  then show ?thesis by (simp add: insertJob_fresh)
qed

lemma insertBatch_Cons:
  "insertBatch pf now db (p # ps) = insertBatch pf now (insertJob pf now db p) ps"
  by (simp add: insertBatch_def)

lemma insertBatch_mono:
  "j_guid ` set (db_jobs db) \<subseteq> j_guid ` set (db_jobs (insertBatch pf now db ps))
   \<and> j_slug ` set (db_jobs db) \<subseteq> j_slug ` set (db_jobs (insertBatch pf now db ps))"
proof (induction ps arbitrary: db)
  case Nil
  show ?case by (simp add: insertBatch_def)
next
  case (Cons p ps)
  note ih = Cons.IH[of "insertJob pf now db p"]
  have "j_guid ` set (db_jobs db)
          \<subseteq> j_guid ` set (db_jobs (insertBatch pf now (insertJob pf now db p) ps))"
    by (rule order_trans[OF insertJob_mono(1) conjunct1[OF ih]])
  moreover have "j_slug ` set (db_jobs db)
          \<subseteq> j_slug ` set (db_jobs (insertBatch pf now (insertJob pf now db p) ps))"
    by (rule order_trans[OF insertJob_mono(2) conjunct2[OF ih]])
  ultimately show ?case
    by (simp only: insertBatch_Cons) 
qed

lemma insertBatch_covers:
  "p \<in> set ps \<Longrightarrow>
     p_guid p \<in> j_guid ` set (db_jobs (insertBatch pf now db ps))
     \<or> p_slug p \<in> j_slug ` set (db_jobs (insertBatch pf now db ps))"
proof (induction ps arbitrary: db)
  case Nil
  then show ?case by simp
next
  case (Cons q ps)
  show ?case
  proof (cases "p = q")
    case True
    note m = insertBatch_mono[of "insertJob pf now db q" pf now ps]
    from insertJob_covers[of q pf now db]
    have "q_guid \<in> G \<or> q_slug \<in> S" if "q_guid = p_guid q" "q_slug = p_slug q"
      "G = j_guid ` set (db_jobs (insertBatch pf now (insertJob pf now db q) ps))"
      "S = j_slug ` set (db_jobs (insertBatch pf now (insertJob pf now db q) ps))"
      for q_guid q_slug G S
      using that conjunct1[OF m] conjunct2[OF m] by (meson subsetD)
    then show ?thesis
      using True by (simp only: insertBatch_Cons) 
  next
    case False
    with Cons.prems have "p \<in> set ps" by simp
    then show ?thesis
      using Cons.IH[of "insertJob pf now db q"] by (simp only: insertBatch_Cons)
  qed
qed

lemma insertBatch_ignored:
  "(\<And>p. p \<in> set ps \<Longrightarrow>
        p_guid p \<in> j_guid ` set (db_jobs db) \<or> p_slug p \<in> j_slug ` set (db_jobs db))
   \<Longrightarrow> db_jobs (insertBatch pf now db ps) = db_jobs db"
proof (induction ps arbitrary: db)
  case Nil
  show ?case by (simp add: insertBatch_def)
next
  case (Cons q ps)
  have same: "db_jobs (insertJob pf now db q) = db_jobs db"
    using Cons.prems[of q] by (simp add: insertJob_ignored)
  have "db_jobs (insertBatch pf now (insertJob pf now db q) ps)
          = db_jobs (insertJob pf now db q)"
    using Cons.prems by (intro Cons.IH) (simp add: same)
  then show ?case
    by (simp add: insertBatch_Cons same)
qed

section \<open>A second run over the same feed\<close>

lemma feedSlug_cong:
  "rawTitle a = rawTitle b \<Longrightarrow> rawCompany a = rawCompany b \<Longrightarrow> raw_guid a = raw_guid b
     \<Longrightarrow> feedSlug pf a = feedSlug pf b"
  by (simp add: feedSlug_def Let_def)

lemma closeItem_processed: "processed (closeItem pf cfg clk db st it) = Suc (processed st)"
  by (simp add: closeItem_def Let_def)

lemma closeItem_batch_cases:
  "batch (closeItem pf cfg clk db st it) = batch st
   \<or> (itemGuid it (Suc (processed st)) \<notin> j_guid ` set (db_jobs db)
       \<and> matchesProfession pf cfg (i_title it) (i_company it) (i_description it)
       \<and> (\<exists>raw. batch (closeItem pf cfg clk db st it) = batch st @ [raw]
                \<and> raw_guid raw = itemGuid it (Suc (processed st))
                \<and> rawTitle raw = i_title it \<and> rawCompany raw = i_company it))"
  using stmtHasGuid_iff[of db "itemGuid it (Suc (processed st))"]
  by (auto simp: closeItem_def Let_def)

lemma closeItem_batch_added:
  assumes "itemGuid it (Suc (processed st)) \<notin> j_guid ` set (db_jobs db)"
    and "matchesProfession pf cfg (i_title it) (i_company it) (i_description it)"
  shows "\<exists>raw. batch (closeItem pf cfg clk db st it) = batch st @ [raw]
                \<and> raw_guid raw = itemGuid it (Suc (processed st))
                \<and> rawTitle raw = i_title it \<and> rawCompany raw = i_company it"
  using assms stmtHasGuid_iff[of db "itemGuid it (Suc (processed st))"]
  by (auto simp: closeItem_def Let_def)

lemma parse_related:
  assumes "j_guid ` set (db_jobs db0) \<subseteq> j_guid ` set (db_jobs db1)"
    and "processed st1 = processed st2"
    and "\<And>raw2. raw2 \<in> set (batch st2) \<Longrightarrow>
           raw_guid raw2 \<notin> j_guid ` set (db_jobs db1)
           \<and> (\<exists>raw1 \<in> set (batch st1). raw_guid raw1 = raw_guid raw2
                 \<and> rawTitle raw1 = rawTitle raw2 \<and> rawCompany raw1 = rawCompany raw2)"
    and "raw2 \<in> set (batch (foldl (closeItem pf cfg clk2 db1) st2 items))"
  shows "raw_guid raw2 \<notin> j_guid ` set (db_jobs db1)
         \<and> (\<exists>raw1 \<in> set (batch (foldl (closeItem pf cfg clk1 db0) st1 items)).
               raw_guid raw1 = raw_guid raw2
               \<and> rawTitle raw1 = rawTitle raw2 \<and> rawCompany raw1 = rawCompany raw2)"
  using assms(2-4)
proof (induction items arbitrary: st1 st2)
  case Nil
  then show ?case by simp
next
  case (Cons it items)
  let ?s1 = "closeItem pf cfg clk1 db0 st1 it"
  let ?s2 = "closeItem pf cfg clk2 db1 st2 it"
  have cnt: "processed ?s1 = processed ?s2"
    using Cons.prems(1) by (simp add: closeItem_processed)
  have inv: "raw_guid r \<notin> j_guid ` set (db_jobs db1)
           \<and> (\<exists>raw1 \<in> set (batch ?s1). raw_guid raw1 = raw_guid r
                 \<and> rawTitle raw1 = rawTitle r \<and> rawCompany raw1 = rawCompany r)"
    if r: "r \<in> set (batch ?s2)" for r
  proof -
    have old: "set (batch st1) \<subseteq> set (batch ?s1)"
      using closeItem_batch_cases[of pf cfg clk1 db0 st1 it] by auto
    from closeItem_batch_cases[of pf cfg clk2 db1 st2 it]
    consider "batch ?s2 = batch st2"
      | raw where "itemGuid it (Suc (processed st2)) \<notin> j_guid ` set (db_jobs db1)"
          "matchesProfession pf cfg (i_title it) (i_company it) (i_description it)"
          "batch ?s2 = batch st2 @ [raw]" "raw_guid raw = itemGuid it (Suc (processed st2))"
          "rawTitle raw = i_title it" "rawCompany raw = i_company it"
      by blast
    then show ?thesis
    proof cases
      case 1
      with r have "r \<in> set (batch st2)" by simp
      from Cons.prems(2)[OF this] old show ?thesis by blast
    next
      case 2
      show ?thesis
      proof (cases "r \<in> set (batch st2)")
        case True
        from Cons.prems(2)[OF this] old show ?thesis by blast
      next
        case False
        with r 2(3) have req: "r = raw" by simp
        have "itemGuid it (Suc (processed st1)) \<notin> j_guid ` set (db_jobs db0)"
          using 2(1) assms(1) Cons.prems(1) by auto
        from closeItem_batch_added[OF this 2(2), of clk1 ] obtain raw1 where
          "batch ?s1 = batch st1 @ [raw1]" "raw_guid raw1 = itemGuid it (Suc (processed st1))"
          "rawTitle raw1 = i_title it" "rawCompany raw1 = i_company it"
          by blast
        then show ?thesis
          using req 2 Cons.prems(1) by auto
      qed
    qed
  qed
  show ?case
    using Cons.IH[of ?s1 ?s2 , OF cnt inv] Cons.prems(3) by simp
qed

lemma enrich_step:
  assumes "rewriteJobRich pf cfg (ai i) (rawTitle rawJob) (rawCompany rawJob)
             (rawDescription rawJob) (shouldUseAI cfg (aiEnhanced st)) = Inr r"
    and "enrich pf cfg clk ai i (rawJob # todo) st = (oc, st')"
  shows "\<exists>st2. enrich pf cfg clk ai (Suc i) todo st2 = (oc, st')
           \<and> ((store st2 = store st
                \<and> processedBatch st2 = processedBatch st @ [jobParams pf rawJob r])
               \<or> (store st2 = insertBatch pf (unixNow clk) (store st)
                                 (processedBatch st @ [jobParams pf rawJob r])
                   \<and> processedBatch st2 = []))"
proof -
  let ?st0 = "st\<lparr>requests := requests st @ [shouldUseAI cfg (aiEnhanced st)]\<rparr>"
  let ?st1 = "if r_usedAI r
              then ?st0\<lparr>aiEnhanced := Suc (aiEnhanced st), results := results st @ [True]\<rparr>
              else ?st0\<lparr>fallbackUsed := Suc (fallbackUsed st),
                       results := results st @ [False]\<rparr>"
  let ?pb = "processedBatch st @ [jobParams pf rawJob r]"
  let ?st2 = "if length ?pb \<ge> 100
              then ?st1\<lparr>store := insertBatch pf (unixNow clk) (store st) ?pb,
                        processedBatch := []\<rparr>
              else ?st1\<lparr>processedBatch := ?pb\<rparr>"
  have "enrich pf cfg clk ai (Suc i) todo ?st2 = (oc, st')"
    using assms by (simp add: Let_def split: if_splits)
  moreover have "(store ?st2 = store st \<and> processedBatch ?st2 = ?pb)
               \<or> (store ?st2 = insertBatch pf (unixNow clk) (store st) ?pb
                   \<and> processedBatch ?st2 = [])"
    by simp
  ultimately show ?thesis by blast
qed

lemma enrich_unchanged:
  assumes "\<And>raw. raw \<in> set todo \<Longrightarrow>
             raw_guid raw \<in> j_guid ` set (db_jobs (store st))
             \<or> feedSlug pf raw \<in> j_slug ` set (db_jobs (store st))"
    and "\<And>p. p \<in> set (processedBatch st) \<Longrightarrow>
             p_guid p \<in> j_guid ` set (db_jobs (store st))
             \<or> p_slug p \<in> j_slug ` set (db_jobs (store st))"
    and "enrich pf cfg clk ai i todo st = (oc, st')"
  shows "db_jobs (store st') = db_jobs (store st)
         \<and> (\<forall>p \<in> set (processedBatch st').
               p_guid p \<in> j_guid ` set (db_jobs (store st))
               \<or> p_slug p \<in> j_slug ` set (db_jobs (store st)))"
  using assms
proof (induction todo arbitrary: i st)
  case Nil
  then show ?case by auto
next
  case (Cons rawJob todo)
  show ?case
  proof (cases "rewriteJobRich pf cfg (ai i) (rawTitle rawJob) (rawCompany rawJob)
                  (rawDescription rawJob) (shouldUseAI cfg (aiEnhanced st))")
    case (Inl e)
    with Cons.prems(3)
    have "st' = st\<lparr>requests := requests st @ [shouldUseAI cfg (aiEnhanced st)]\<rparr>"
      by (simp add: Let_def)
    with Cons.prems(2) show ?thesis by auto
  next
    case (Inr r)
    let ?pb = "processedBatch st @ [jobParams pf rawJob r]"
    have pb: "p_guid p \<in> j_guid ` set (db_jobs (store st))
              \<or> p_slug p \<in> j_slug ` set (db_jobs (store st))" if "p \<in> set ?pb" for p
    proof (cases "p \<in> set (processedBatch st)")
      case True
      then show ?thesis by (rule Cons.prems(2))
    next
      case False
      with that have "p = jobParams pf rawJob r" by simp
      then show ?thesis
        using Cons.prems(1)[of rawJob] by (simp add: jobParams_def)
    qed
    from enrich_step[OF Inr Cons.prems(3)] obtain st2 where
      run: "enrich pf cfg clk ai (Suc i) todo st2 = (oc, st')"
      and alt: "(store st2 = store st \<and> processedBatch st2 = ?pb)
                \<or> (store st2 = insertBatch pf (unixNow clk) (store st) ?pb
                    \<and> processedBatch st2 = [])"
      by blast
    have same: "db_jobs (store st2) = db_jobs (store st)"
      using alt insertBatch_ignored[of ?pb "store st" pf "unixNow clk"] pb by auto
    have sub: "set (processedBatch st2) \<subseteq> set ?pb"
      using alt by auto
    have "db_jobs (store st') = db_jobs (store st2)
         \<and> (\<forall>p \<in> set (processedBatch st').
               p_guid p \<in> j_guid ` set (db_jobs (store st2))
               \<or> p_slug p \<in> j_slug ` set (db_jobs (store st2)))"
    proof (rule Cons.IH[OF _ _ run])
      fix raw assume "raw \<in> set todo"
      then show "raw_guid raw \<in> j_guid ` set (db_jobs (store st2))
             \<or> feedSlug pf raw \<in> j_slug ` set (db_jobs (store st2))"
        using Cons.prems(1)[of raw] by (simp add: same)
    next
      fix p assume "p \<in> set (processedBatch st2)"
      then show "p_guid p \<in> j_guid ` set (db_jobs (store st2))
             \<or> p_slug p \<in> j_slug ` set (db_jobs (store st2))"
        using pb[of p] sub by (auto simp: same)
    qed
    then show ?thesis by (simp add: same)
  qed
qed

lemma settled_stored:
  "g \<in> j_guid ` set (db_jobs (store st)) \<or> s \<in> j_slug ` set (db_jobs (store st))
     \<Longrightarrow> settled st g s"
  unfolding settled_def by (elim disjE) simp_all

lemma settled_waiting:
  "p \<in> set (processedBatch st) \<Longrightarrow> settled st (p_guid p) (p_slug p)"
  unfolding settled_def list_ex_iff by (intro disjI2 bexI[of _ p]) simp_all

lemma settled_cases:
  assumes "settled st g s"
  obtains "g \<in> j_guid ` set (db_jobs (store st)) \<or> s \<in> j_slug ` set (db_jobs (store st))"
  | p where "p \<in> set (processedBatch st)" "p_guid p = g" "p_slug p = s"
proof -
  from assms have "(g \<in> j_guid ` set (db_jobs (store st))
                    \<or> s \<in> j_slug ` set (db_jobs (store st)))
                   \<or> (\<exists>p \<in> set (processedBatch st). p_guid p = g \<and> p_slug p = s)"
    unfolding settled_def list_ex_iff by (simp only: disj_assoc)
  then show thesis
  proof
    assume "g \<in> j_guid ` set (db_jobs (store st)) \<or> s \<in> j_slug ` set (db_jobs (store st))"
    then show thesis by (rule that(1))
  next
    assume "\<exists>p \<in> set (processedBatch st). p_guid p = g \<and> p_slug p = s"
    then obtain p where "p \<in> set (processedBatch st)" "p_guid p = g" "p_slug p = s"
      by (elim bexE conjE)
    then show thesis by (rule that(2))
  qed
qed

lemma stored_mono:
  assumes "g \<in> j_guid ` set (db_jobs db) \<or> s \<in> j_slug ` set (db_jobs db)"
  shows "g \<in> j_guid ` set (db_jobs (insertBatch pf now db ps))
         \<or> s \<in> j_slug ` set (db_jobs (insertBatch pf now db ps))"
  using assms
proof
  assume "g \<in> j_guid ` set (db_jobs db)"
  then have "g \<in> j_guid ` set (db_jobs (insertBatch pf now db ps))"
    by (rule subsetD[OF conjunct1[OF insertBatch_mono]])
  then show ?thesis by (rule disjI1)
next
  assume "s \<in> j_slug ` set (db_jobs db)"
  then have "s \<in> j_slug ` set (db_jobs (insertBatch pf now db ps))"
    by (rule subsetD[OF conjunct2[OF insertBatch_mono]])
  then show ?thesis by (rule disjI2)
qed

lemma settled_mono_step:
  assumes "settled st g s"
    and "(store st2 = store st \<and> set (processedBatch st) \<subseteq> set (processedBatch st2))
         \<or> (store st2 = insertBatch pf now (store st) pb
             \<and> set (processedBatch st) \<subseteq> set pb)"
  shows "settled st2 g s"
  using assms(1)
proof (cases rule: settled_cases)
  case 1
  from assms(2) show ?thesis
  proof
    assume a: "store st2 = store st \<and> set (processedBatch st) \<subseteq> set (processedBatch st2)"
    show ?thesis
      using 1 by (intro settled_stored) (simp only: conjunct1[OF a])
  next
    assume a: "store st2 = insertBatch pf now (store st) pb
               \<and> set (processedBatch st) \<subseteq> set pb"
    show ?thesis
      using stored_mono[OF 1, of pf now pb]
      by (intro settled_stored) (simp only: conjunct1[OF a])
  qed
next
  case (2 p)
  from assms(2) show ?thesis
  proof
    assume a: "store st2 = store st \<and> set (processedBatch st) \<subseteq> set (processedBatch st2)"
    then have "p \<in> set (processedBatch st2)"
      using 2(1) by (metis subsetD)
    from settled_waiting[OF this] show ?thesis
      by (simp only: 2)
  next
    assume a: "store st2 = insertBatch pf now (store st) pb
               \<and> set (processedBatch st) \<subseteq> set pb"
    then have "p \<in> set pb"
      using 2(1) by (metis subsetD)
    from insertBatch_covers[OF this, of pf now "store st"] show ?thesis
      by (intro settled_stored) (simp only: conjunct1[OF a] 2)
  qed
qed

lemma enrich_settles:
  assumes "enrich pf cfg clk ai i todo st = (Completed, st')"
  shows "(\<forall>g s. settled st g s \<longrightarrow> settled st' g s)
         \<and> (\<forall>raw \<in> set todo. settled st' (raw_guid raw) (feedSlug pf raw))"
  using assms
proof (induction todo arbitrary: i st)
  case Nil
  then show ?case by simp
next
  case (Cons rawJob todo)
  show ?case
  proof (cases "rewriteJobRich pf cfg (ai i) (rawTitle rawJob) (rawCompany rawJob)
                  (rawDescription rawJob) (shouldUseAI cfg (aiEnhanced st))")
    case (Inl e)
    with Cons.prems show ?thesis by (simp add: Let_def)
  next
    case (Inr r)
    let ?pb = "processedBatch st @ [jobParams pf rawJob r]"
    from enrich_step[OF Inr Cons.prems] obtain st2 where
      run: "enrich pf cfg clk ai (Suc i) todo st2 = (Completed, st')"
      and alt: "(store st2 = store st \<and> processedBatch st2 = ?pb)
                \<or> (store st2 = insertBatch pf (unixNow clk) (store st) ?pb
                    \<and> processedBatch st2 = [])"
      by blast
    have ih: "(\<forall>g s. settled st2 g s \<longrightarrow> settled st' g s)
         \<and> (\<forall>raw \<in> set todo. settled st' (raw_guid raw) (feedSlug pf raw))"
      by (rule Cons.IH[OF run])
    have alt1: "(store st2 = store st \<and> set (processedBatch st) \<subseteq> set (processedBatch st2))
         \<or> (store st2 = insertBatch pf (unixNow clk) (store st) ?pb
             \<and> set (processedBatch st) \<subseteq> set ?pb)"
      using alt by auto
    have old: "settled st2 g s" if "settled st g s" for g s
      using settled_mono_step[OF that alt1] .
    have new: "settled st2 (raw_guid rawJob) (feedSlug pf rawJob)"
      using alt
    proof
      assume "store st2 = store st \<and> processedBatch st2 = ?pb"
      then show ?thesis
        by (simp add: settled_def jobParams_def)
    next
      assume a: "store st2 = insertBatch pf (unixNow clk) (store st) ?pb
                 \<and> processedBatch st2 = []"
      have "jobParams pf rawJob r \<in> set ?pb" by simp
      from insertBatch_covers[OF this, of pf "unixNow clk" "store st"] a show ?thesis
        by (simp add: settled_def jobParams_def)
    qed
    show ?thesis
      using ih old new by auto
  qed
qed

lemma enrich_guids_mono:
  assumes "enrich pf cfg clk ai i todo st = (oc, st')"
  shows "j_guid ` set (db_jobs (store st)) \<subseteq> j_guid ` set (db_jobs (store st'))"
  using assms
proof (induction todo arbitrary: i st)
  case Nil
  then show ?case by simp
next
  case (Cons rawJob todo)
  show ?case
  proof (cases "rewriteJobRich pf cfg (ai i) (rawTitle rawJob) (rawCompany rawJob)
                  (rawDescription rawJob) (shouldUseAI cfg (aiEnhanced st))")
    case (Inl e)
    with Cons.prems show ?thesis by (auto simp: Let_def)
  next
    case (Inr r)
    let ?pb = "processedBatch st @ [jobParams pf rawJob r]"
    from enrich_step[OF Inr Cons.prems] obtain st2 where
      run: "enrich pf cfg clk ai (Suc i) todo st2 = (oc, st')"
      and alt: "(store st2 = store st \<and> processedBatch st2 = ?pb)
                \<or> (store st2 = insertBatch pf (unixNow clk) (store st) ?pb
                    \<and> processedBatch st2 = [])"
      by blast
    have "j_guid ` set (db_jobs (store st)) \<subseteq> j_guid ` set (db_jobs (store st2))"
      using alt insertBatch_mono[of "store st" pf "unixNow clk" ?pb] by auto
    then show ?thesis
      using Cons.IH[OF run] by (rule order_trans)
  qed
qed

lemma ingest_covers:
  assumes "ingest pf cfg clk ai items db = (Completed, st)"
  shows "j_guid ` set (db_jobs db) \<subseteq> j_guid ` set (db_jobs (store st))
         \<and> (\<forall>raw \<in> set (batch (foldl (closeItem pf cfg clk db)
                            \<lparr>processed = 0, matched = 0, skipped = 0, batch = []\<rparr> items)).
               raw_guid raw \<in> j_guid ` set (db_jobs (store st))
               \<or> feedSlug pf raw \<in> j_slug ` set (db_jobs (store st)))"
proof -
  let ?raws = "batch (foldl (closeItem pf cfg clk db)
                 \<lparr>processed = 0, matched = 0, skipped = 0, batch = []\<rparr> items)"
  let ?init = "\<lparr>aiEnhanced = 0, fallbackUsed = 0, processedBatch = [], store = db,
                requests = [], results = []\<rparr>"
  obtain oc1 st1 where e: "enrich pf cfg clk ai 0 ?raws ?init = (oc1, st1)"
    by (cases "enrich pf cfg clk ai 0 ?raws ?init") blast
  have oc1: "oc1 = Completed"
    using assms e by (cases oc1) (auto simp: ingest_def Let_def)
  have fin: "(store st = store st1 \<and> processedBatch st1 = [])
             \<or> store st = insertBatch pf (unixNow clk) (store st1) (processedBatch st1)"
    using assms e oc1 by (auto simp: ingest_def Let_def split: if_splits)
  note s = enrich_settles[OF e[unfolded oc1]]
  have stored: "g \<in> j_guid ` set (db_jobs (store st)) \<or> s \<in> j_slug ` set (db_jobs (store st))"
    if "settled st1 g s" for g s
  proof -
    from that consider
        "g \<in> j_guid ` set (db_jobs (store st1)) \<or> s \<in> j_slug ` set (db_jobs (store st1))"
      | p where "p \<in> set (processedBatch st1)" "p_guid p = g" "p_slug p = s"
      by (auto simp: settled_def list_ex_iff)
    then show ?thesis
    proof cases
      case 1
      from fin show ?thesis
      proof
        assume "store st = store st1 \<and> processedBatch st1 = []"
        with 1 show ?thesis by simp
      next
        assume "store st = insertBatch pf (unixNow clk) (store st1) (processedBatch st1)"
        with 1 insertBatch_mono[of "store st1" pf "unixNow clk" "processedBatch st1"]
        show ?thesis by auto
      qed
    next
      case 2
      from fin show ?thesis
      proof
        assume "store st = store st1 \<and> processedBatch st1 = []"
        with 2 show ?thesis by simp
      next
        assume a: "store st = insertBatch pf (unixNow clk) (store st1) (processedBatch st1)"
        from insertBatch_covers[OF 2(1), of pf "unixNow clk" "store st1"] 2(2,3) a
        show ?thesis by simp
      qed
    qed
  qed
  have "j_guid ` set (db_jobs db) \<subseteq> j_guid ` set (db_jobs (store st1))"
    using enrich_guids_mono[OF e] by simp
  moreover have "j_guid ` set (db_jobs (store st1)) \<subseteq> j_guid ` set (db_jobs (store st))"
    using fin insertBatch_mono[of "store st1" pf "unixNow clk" "processedBatch st1"] by auto
  ultimately have mono: "j_guid ` set (db_jobs db) \<subseteq> j_guid ` set (db_jobs (store st))"
    by (rule order_trans)
  show ?thesis
    using mono s stored by blast
qed

text \<open>
  C1, as the code has it. When the first run completes and evicts nothing (the jobs stored
  after its inserts do not exceed \<open>MAX_JOBS\<close>), a second run over the same items leaves the
  \<open>jobs\<close> table as the first run left it, whatever the clock and the model do in the
  second run: an item whose guid is stored is skipped, and an item that reaches the insert
  was refused in the first run for its slug, which is still stored.
\<close>

theorem second_run_keeps_jobs:
  assumes "ingest pf cfg clk1 ai1 items db0 = (Completed, st1)"
    and "int (length (db_jobs (store st1))) \<le> MAX_JOBS cfg"
  shows "db_jobs (store (snd (processFeed pf cfg clk2 ai2 items
                                (store (snd (processFeed pf cfg clk1 ai1 items db0))))))
         = db_jobs (store (snd (processFeed pf cfg clk1 ai1 items db0)))"
proof -
  let ?db1 = "store st1"
  let ?zero = "\<lparr>processed = 0, matched = 0, skipped = 0, batch = []\<rparr>"
  let ?raws2 = "batch (foldl (closeItem pf cfg clk2 ?db1) ?zero items)"
  let ?init2 = "\<lparr>aiEnhanced = 0, fallbackUsed = 0, processedBatch = [], store = ?db1,
                 requests = [], results = []\<rparr>"
  have first: "store (snd (processFeed pf cfg clk1 ai1 items db0)) = ?db1"
    using assms by (simp add: processFeed_def trimJobs_def)
  note c = ingest_covers[OF assms(1)]
  have blocked: "raw_guid raw2 \<in> j_guid ` set (db_jobs ?db1)
                 \<or> feedSlug pf raw2 \<in> j_slug ` set (db_jobs ?db1)"
    if "raw2 \<in> set ?raws2" for raw2
  proof -
    from parse_related[of db0 ?db1 ?zero ?zero raw2 pf cfg clk2 items clk1] c that
    obtain raw1 where
      r1: "raw1 \<in> set (batch (foldl (closeItem pf cfg clk1 db0) ?zero items))"
      and same: "raw_guid raw1 = raw_guid raw2" "rawTitle raw1 = rawTitle raw2"
        "rawCompany raw1 = rawCompany raw2"
      by auto
    have slug: "feedSlug pf raw1 = feedSlug pf raw2"
      using same by (intro feedSlug_cong) simp_all
    from c r1 have "raw_guid raw1 \<in> j_guid ` set (db_jobs ?db1)
                 \<or> feedSlug pf raw1 \<in> j_slug ` set (db_jobs ?db1)"
      by blast
    then show ?thesis
      by (simp only: same(1) slug)
  qed
  obtain oc2 st2 where e2: "enrich pf cfg clk2 ai2 0 ?raws2 ?init2 = (oc2, st2)"
    by (cases "enrich pf cfg clk2 ai2 0 ?raws2 ?init2") blast
  have u: "db_jobs (store st2) = db_jobs ?db1
         \<and> (\<forall>p \<in> set (processedBatch st2).
               p_guid p \<in> j_guid ` set (db_jobs ?db1)
               \<or> p_slug p \<in> j_slug ` set (db_jobs ?db1))"
    using enrich_unchanged[of ?raws2 ?init2 pf cfg clk2 ai2 0 oc2 st2] blocked e2 by simp
  have flush: "db_jobs (insertBatch pf (unixNow clk2) (store st2) (processedBatch st2))
                 = db_jobs ?db1"
    using insertBatch_ignored[of "processedBatch st2" "store st2" pf "unixNow clk2"] u by simp
  obtain oc3 st3 where i2: "ingest pf cfg clk2 ai2 items ?db1 = (oc3, st3)"
    by (cases "ingest pf cfg clk2 ai2 items ?db1") blast
  have kept: "db_jobs (store st3) = db_jobs ?db1"
    using i2 e2 u flush by (cases oc2) (auto simp: ingest_def Let_def split: if_splits)
  have "db_jobs (store (snd (processFeed pf cfg clk2 ai2 items ?db1))) = db_jobs ?db1"
    using i2 kept assms(2) by (cases oc3) (auto simp: processFeed_def trimJobs_def)
  then show ?thesis
    by (simp add: first)
qed

section \<open>Runs of fewer than a hundred jobs\<close>

lemma enrich_small:
  assumes "toLowerCase pf (TARGET_PROFESSION cfg) \<notin> set objectPrototypeKeys"
    and "length (processedBatch st) + length todo < 100"
  shows "\<exists>st'. enrich pf cfg clk ai i todo st = (Completed, st') \<and> store st' = store st
           \<and> map p_guid (processedBatch st') = map p_guid (processedBatch st) @ map raw_guid todo
           \<and> map p_slug (processedBatch st')
               = map p_slug (processedBatch st) @ map (feedSlug pf) todo
           \<and> map p_published_at (processedBatch st')
               = map p_published_at (processedBatch st) @ map raw_published_at todo"
  using assms(2)
proof (induction todo arbitrary: i st)
  case Nil
  then show ?case by simp
next
  case (Cons rawJob todo)
  obtain r where r: "rewriteJobRich pf cfg (ai i) (rawTitle rawJob) (rawCompany rawJob)
                  (rawDescription rawJob) (shouldUseAI cfg (aiEnhanced st)) = Inr r"
    using rewriteJobRich_returns[OF assms(1)] by blast
  let ?st0 = "st\<lparr>requests := requests st @ [shouldUseAI cfg (aiEnhanced st)]\<rparr>"
  let ?st1 = "if r_usedAI r
              then ?st0\<lparr>aiEnhanced := Suc (aiEnhanced st), results := results st @ [True]\<rparr>
              else ?st0\<lparr>fallbackUsed := Suc (fallbackUsed st),
                       results := results st @ [False]\<rparr>"
  let ?st2 = "?st1\<lparr>processedBatch := processedBatch st @ [jobParams pf rawJob r]\<rparr>"
  have step: "enrich pf cfg clk ai i (rawJob # todo) st = enrich pf cfg clk ai (Suc i) todo ?st2"
    using r Cons.prems by (simp add: Let_def)
  have "length (processedBatch ?st2) + length todo < 100"
    using Cons.prems by simp
  from Cons.IH[OF this, of "Suc i"] obtain st' where
    "enrich pf cfg clk ai (Suc i) todo ?st2 = (Completed, st')" "store st' = store ?st2"
    "map p_guid (processedBatch st') = map p_guid (processedBatch ?st2) @ map raw_guid todo"
    "map p_slug (processedBatch st') = map p_slug (processedBatch ?st2) @ map (feedSlug pf) todo"
    "map p_published_at (processedBatch st')
       = map p_published_at (processedBatch ?st2) @ map raw_published_at todo"
    by blast
  then show ?case
    by (subst step) (simp add: jobParams_def)
qed

lemma ingest_small:
  assumes "toLowerCase pf (TARGET_PROFESSION cfg) \<notin> set objectPrototypeKeys"
    and "batch (foldl (closeItem pf cfg clk db)
                 \<lparr>processed = 0, matched = 0, skipped = 0, batch = []\<rparr> items) = raws"
    and "length raws < 100"
  shows "\<exists>st pb. ingest pf cfg clk ai items db = (Completed, st)
           \<and> store st = insertBatch pf (unixNow clk) db pb
           \<and> map p_guid pb = map raw_guid raws
           \<and> map p_slug pb = map (feedSlug pf) raws
           \<and> map p_published_at pb = map raw_published_at raws"
proof -
  let ?init = "\<lparr>aiEnhanced = 0, fallbackUsed = 0, processedBatch = [], store = db,
                requests = [], results = []\<rparr>"
  from enrich_small[OF assms(1), of ?init raws clk ai 0] assms(3) obtain st' where
    e: "enrich pf cfg clk ai 0 raws ?init = (Completed, st')" and s: "store st' = db"
    and m: "map p_guid (processedBatch st') = map raw_guid raws"
      "map p_slug (processedBatch st') = map (feedSlug pf) raws"
      "map p_published_at (processedBatch st') = map raw_published_at raws"
    by auto
  show ?thesis
  proof (cases "processedBatch st' = []")
    case True
    then have "ingest pf cfg clk ai items db = (Completed, st')"
      using e assms(2) by (simp add: ingest_def)
    moreover have "store st' = insertBatch pf (unixNow clk) db []"
      using s by (simp add: insertBatch_def)
    ultimately show ?thesis
      using m True by (metis list.simps(8))
  next
    case False
    then have "ingest pf cfg clk ai items db
        = (Completed, st'\<lparr>store := insertBatch pf (unixNow clk) db (processedBatch st')\<rparr>)"
      using e s assms(2) by (simp add: ingest_def)
    then show ?thesis
      using m by (intro exI[of _ "st'\<lparr>store := insertBatch pf (unixNow clk) db
              (processedBatch st')\<rparr>"] exI[of _ "processedBatch st'"]) simp
  qed
qed

lemma two_params:
  assumes "map p_guid pb = [g, g']"
  obtains p p' where "pb = [p, p']"
  using assms by (cases pb; cases "tl pb"; cases "tl (tl pb)") auto

lemma one_param:
  assumes "map p_guid pb = [g]"
  obtains p where "pb = [p]"
  using assms by (cases pb; cases "tl pb") auto

lemma example_strings:
  "js ''g1'' \<noteq> js ''g2''" "js ''g1'' \<noteq> js ''g3''" "js ''g3'' \<noteq> js ''g1''"
  "js ''motorista-acme'' \<noteq> js ''caminhoneiro-beta''"
  "js ''caminhoneiro-beta'' \<noteq> js ''motorista-acme''"
  by (simp_all add: js_def)

lemma example_slugs:
  "mkSlug examplePlatform (js ''Motorista'' @ js ''-'' @ js ''Acme'') = js ''motorista-acme''"
  "mkSlug examplePlatform (js ''Caminhoneiro'' @ js ''-'' @ js ''Beta'')
     = js ''caminhoneiro-beta''"
  by (simp_all add: mkSlug_def examplePlatform_def asciiSlugify_def asciiLower_def isSpace_def
        isWordChar_def js_def)

lemma example_matches:
  "matchesProfession examplePlatform exampleConfig (js ''Motorista'') (js ''Acme'')
     (js ''Dirigir'')"
  "matchesProfession examplePlatform exampleConfig (js ''Caminhoneiro'') (js ''Beta'')
     (js ''Dirigir'')"
  by (simp_all add: matchesProfession_def examplePlatform_def exampleConfig_def asciiLower_def
        js_def)

lemma example_dates:
  "unixtime examplePlatform (js ''2024-01-01T00:00:00Z'') = Some 1704067200"
  "unixtime examplePlatform (js ''2024-01-02T00:00:00Z'') = Some 1704153600"
  by (simp_all add: examplePlatform_def js_def)

lemma example_guids:
  "itemGuid itemA n = js ''g1''" "itemGuid itemB n = js ''g2''" "itemGuid itemC n = js ''g3''"
  by (simp_all add: itemGuid_def itemA_def itemB_def itemC_def js_def)

section \<open>The example runs\<close>

lemma example_fields:
  "i_title itemA = js ''Motorista''" "i_company itemA = js ''Acme''"
  "i_description itemA = js ''Dirigir''" "i_guid itemA = js ''g1''"
  "i_pubDate itemA = Some (js ''2024-01-01T00:00:00Z'')"
  "i_title itemB = js ''Motorista''" "i_company itemB = js ''Acme''"
  "i_description itemB = js ''Dirigir''" "i_guid itemB = js ''g2''"
  "i_pubDate itemB = Some (js ''2024-01-02T00:00:00Z'')"
  "i_title itemC = js ''Caminhoneiro''" "i_company itemC = js ''Beta''"
  "i_description itemC = js ''Dirigir''" "i_guid itemC = js ''g3''"
  "i_pubDate itemC = Some (js ''2024-01-01T00:00:00Z'')"
  by (simp_all add: itemA_def itemB_def itemC_def)

lemma example_config:
  "FEED_HOST exampleConfig = js ''feed.example.com''" "MAX_JOBS exampleConfig = 1000"
  "FEED_HOST tightConfig = js ''feed.example.com''" "MAX_JOBS tightConfig = 1"
  "toLowerCase examplePlatform (TARGET_PROFESSION tightConfig) \<notin> set objectPrototypeKeys"
  using example_profession_key
  by (simp_all add: exampleConfig_def tightConfig_def)

lemma example_empty: "db_jobs emptyDb = []" "db_jobs_seq emptyDb = 0"
  by (simp_all add: emptyDb_def)

lemma tight_matches:
  "matchesProfession examplePlatform tightConfig title company description
     = matchesProfession examplePlatform exampleConfig title company description"
  by (simp add: matchesProfession_def tightConfig_def)

lemma example_parse_AB:
  "batch (foldl (closeItem examplePlatform exampleConfig exampleClock emptyDb)
            \<lparr>processed = 0, matched = 0, skipped = 0, batch = []\<rparr> [itemA, itemB])
   = [exampleRaw itemA 1704067200, exampleRaw itemB 1704153600]"
  by (simp add: closeItem_def Let_def stmtHasGuid_def exampleRaw_def example_guids
        example_fields example_config example_empty example_matches example_dates)

lemma example_parse_AC:
  "batch (foldl (closeItem examplePlatform tightConfig exampleClock emptyDb)
            \<lparr>processed = 0, matched = 0, skipped = 0, batch = []\<rparr> [itemA, itemC])
   = [exampleRaw itemA 1704067200, exampleRaw itemC 1704067200]"
  by (simp add: closeItem_def Let_def stmtHasGuid_def exampleRaw_def example_guids
        example_fields example_config example_empty example_matches example_dates tight_matches)

lemma example_parse_again:
  assumes "db_jobs db = [row]" and "j_guid row = js ''g3''"
  shows "batch (foldl (closeItem examplePlatform tightConfig exampleClock db)
            \<lparr>processed = 0, matched = 0, skipped = 0, batch = []\<rparr> [itemA, itemC])
   = [exampleRaw itemA 1704067200]"
  using assms example_strings
  by (simp add: closeItem_def Let_def stmtHasGuid_def exampleRaw_def example_guids
        example_fields example_config example_empty example_matches example_dates tight_matches)

lemma example_raw_slugs:
  "feedSlug examplePlatform (exampleRaw itemA t) = js ''motorista-acme''"
  "feedSlug examplePlatform (exampleRaw itemB t) = js ''motorista-acme''"
  "feedSlug examplePlatform (exampleRaw itemC t) = js ''caminhoneiro-beta''"
proof -
  have ne: "js ''motorista-acme'' \<noteq> []" "js ''caminhoneiro-beta'' \<noteq> []"
    by (simp_all add: js_def)
  show "feedSlug examplePlatform (exampleRaw itemA t) = js ''motorista-acme''"
    "feedSlug examplePlatform (exampleRaw itemB t) = js ''motorista-acme''"
    "feedSlug examplePlatform (exampleRaw itemC t) = js ''caminhoneiro-beta''"
    by (simp_all add: feedSlug_def Let_def exampleRaw_def example_fields example_slugs ne)
qed

lemma example_raw_fields:
  "raw_guid (exampleRaw it t) = i_guid it" "raw_published_at (exampleRaw it t) = Some t"
  by (simp_all add: exampleRaw_def)

lemma example_ingest_AB:
  "\<exists>st. ingest examplePlatform exampleConfig exampleClock noModel [itemA, itemB] emptyDb
          = (Completed, st)
        \<and> map (\<lambda>j. (j_guid j, j_slug j)) (db_jobs (store st))
            = [(js ''g1'', js ''motorista-acme'')]"
proof -
  let ?now = "unixNow exampleClock"
  have small: "length [exampleRaw itemA 1704067200, exampleRaw itemB 1704153600] < 100"
    by simp
  from ingest_small[OF example_profession_key example_parse_AB small, of noModel]
  obtain st pb where
    i: "ingest examplePlatform exampleConfig exampleClock noModel [itemA, itemB] emptyDb
          = (Completed, st)"
    and s: "store st = insertBatch examplePlatform ?now emptyDb pb"
    and g0: "map p_guid pb
               = map raw_guid [exampleRaw itemA 1704067200, exampleRaw itemB 1704153600]"
    and sl0: "map p_slug pb = map (feedSlug examplePlatform)
                [exampleRaw itemA 1704067200, exampleRaw itemB 1704153600]"
    by blast
  have g: "map p_guid pb = [js ''g1'', js ''g2'']"
    using g0 by (simp add: example_raw_fields example_fields)
  have sl: "map p_slug pb = [js ''motorista-acme'', js ''motorista-acme'']"
    using sl0 by (simp add: example_raw_slugs)
  from g obtain pA pB where pb: "pb = [pA, pB]"
    by (rule two_params)
  have f: "p_guid pA = js ''g1''" "p_slug pA = js ''motorista-acme''"
    "p_slug pB = js ''motorista-acme''"
    using g sl pb by simp_all
  let ?d1 = "insertJob examplePlatform ?now emptyDb pA"
  have fresh: "p_guid pA \<notin> j_guid ` set (db_jobs emptyDb)"
    "p_slug pA \<notin> j_slug ` set (db_jobs emptyDb)"
    by (simp_all add: example_empty)
  note r = insertJob_fresh(1)[OF fresh, of examplePlatform ?now]
  have d1: "map (\<lambda>j. (j_guid j, j_slug j)) (db_jobs ?d1) = [(js ''g1'', js ''motorista-acme'')]"
    by (simp add: r example_empty f)
  have "j_slug ` set (db_jobs ?d1) = {js ''motorista-acme''}"
    by (simp add: r example_empty f)
  then have "p_guid pB \<in> j_guid ` set (db_jobs ?d1) \<or> p_slug pB \<in> j_slug ` set (db_jobs ?d1)"
    by (simp add: f)
  then have d2: "db_jobs (insertJob examplePlatform ?now ?d1 pB) = db_jobs ?d1"
    by (rule insertJob_ignored)
  have "map (\<lambda>j. (j_guid j, j_slug j)) (db_jobs (store st))
                = [(js ''g1'', js ''motorista-acme'')]"
    by (simp add: s pb insertBatch_def d2 d1)
  with i show ?thesis by (intro exI[of _ st] conjI)
qed

lemma example_run_AB:
  "fst (processFeed examplePlatform exampleConfig exampleClock noModel [itemA, itemB] emptyDb)
     = Completed
   \<and> map (\<lambda>j. (j_guid j, j_slug j))
        (db_jobs (store (snd (processFeed examplePlatform exampleConfig exampleClock noModel
                                [itemA, itemB] emptyDb))))
     = [(js ''g1'', js ''motorista-acme'')]"
proof -
  from example_ingest_AB obtain st where
    i: "ingest examplePlatform exampleConfig exampleClock noModel [itemA, itemB] emptyDb
          = (Completed, st)"
    and jobs: "map (\<lambda>j. (j_guid j, j_slug j)) (db_jobs (store st))
                = [(js ''g1'', js ''motorista-acme'')]"
    by (elim exE conjE)
  have "length (db_jobs (store st)) = 1"
    using arg_cong[OF jobs, of length] by simp
  then have "trimJobs exampleConfig (store st) = store st"
    by (simp add: trimJobs_def example_config)
  then show ?thesis
    using i jobs by (simp add: processFeed_def)
qed

text \<open>
  C6. Two items with the same title and company get the same slug, although their guids
  and dates differ: the slug of a feed job is made from the title and the company alone
  (the form for manual postings adds the time). The insert of the second job is ignored
  for its slug, so one job is stored.
\<close>

theorem same_title_same_slug:
  "i_title itemA = i_title itemB \<and> i_company itemA = i_company itemB
   \<and> i_guid itemA \<noteq> i_guid itemB \<and> i_pubDate itemA \<noteq> i_pubDate itemB
   \<and> feedSlug examplePlatform (exampleRaw itemA 1704067200)
       = feedSlug examplePlatform (exampleRaw itemB 1704153600)
   \<and> fst (processFeed examplePlatform exampleConfig exampleClock noModel [itemA, itemB] emptyDb)
       = Completed
   \<and> map (\<lambda>j. (j_guid j, j_slug j))
        (db_jobs (store (snd (processFeed examplePlatform exampleConfig exampleClock noModel
                                [itemA, itemB] emptyDb))))
       = [(js ''g1'', js ''motorista-acme'')]"
proof -
  have "i_pubDate itemA \<noteq> i_pubDate itemB"
    by (simp add: example_fields js_def)
  then show ?thesis
    using example_run_AB example_strings(1)
    by (simp add: example_fields example_raw_slugs)
qed

theorem same_title_same_slug_witness:
  "length (db_jobs (store (snd (processFeed examplePlatform exampleConfig exampleClock noModel
                                  [itemA, itemB] emptyDb)))) = 1"
proof -
  have "length (map (\<lambda>j. (j_guid j, j_slug j))
          (db_jobs (store (snd (processFeed examplePlatform exampleConfig exampleClock noModel
                                  [itemA, itemB] emptyDb))))) = 1"
    using same_title_same_slug by simp
  then show ?thesis by simp
qed

lemma example_run_AC:
  "\<exists>row. fst (processFeed examplePlatform tightConfig exampleClock noModel [itemA, itemC]
                emptyDb) = Completed
      \<and> db_jobs (store (snd (processFeed examplePlatform tightConfig exampleClock noModel
                               [itemA, itemC] emptyDb))) = [row]
      \<and> db_jobs_seq (store (snd (processFeed examplePlatform tightConfig exampleClock noModel
                                   [itemA, itemC] emptyDb))) = 2
      \<and> j_id row = 2 \<and> j_guid row = js ''g3'' \<and> j_slug row = js ''caminhoneiro-beta''
      \<and> j_published_at row = Some 1704067200"
proof -
  let ?now = "unixNow exampleClock"
  have small: "length [exampleRaw itemA 1704067200, exampleRaw itemC 1704067200] < 100"
    by simp
  from ingest_small[OF example_config(5) example_parse_AC small, of noModel]
  obtain st pb where
    i: "ingest examplePlatform tightConfig exampleClock noModel [itemA, itemC] emptyDb
          = (Completed, st)"
    and s: "store st = insertBatch examplePlatform ?now emptyDb pb"
    and g0: "map p_guid pb
               = map raw_guid [exampleRaw itemA 1704067200, exampleRaw itemC 1704067200]"
    and sl0: "map p_slug pb = map (feedSlug examplePlatform)
                [exampleRaw itemA 1704067200, exampleRaw itemC 1704067200]"
    and pu0: "map p_published_at pb = map raw_published_at
                [exampleRaw itemA 1704067200, exampleRaw itemC 1704067200]"
    by blast
  have g: "map p_guid pb = [js ''g1'', js ''g3'']"
    using g0 by (simp add: example_raw_fields example_fields)
  have sl: "map p_slug pb = [js ''motorista-acme'', js ''caminhoneiro-beta'']"
    using sl0 by (simp add: example_raw_slugs)
  have pu: "map p_published_at pb = [Some 1704067200, Some 1704067200]"
    using pu0 by (simp add: example_raw_fields)
  from g obtain pA pC where pb: "pb = [pA, pC]"
    by (rule two_params)
  have f: "p_guid pA = js ''g1''" "p_slug pA = js ''motorista-acme''"
    "p_published_at pA = Some 1704067200"
    "p_guid pC = js ''g3''" "p_slug pC = js ''caminhoneiro-beta''"
    "p_published_at pC = Some 1704067200"
    using g sl pu pb by simp_all
  let ?d1 = "insertJob examplePlatform ?now emptyDb pA"
  let ?d2 = "insertJob examplePlatform ?now ?d1 pC"
  have fresh1: "p_guid pA \<notin> j_guid ` set (db_jobs emptyDb)"
    "p_slug pA \<notin> j_slug ` set (db_jobs emptyDb)"
    by (simp_all add: example_empty)
  note r1 = insertJob_fresh[OF fresh1, of examplePlatform ?now]
  have fresh2: "p_guid pC \<notin> j_guid ` set (db_jobs ?d1)" "p_slug pC \<notin> j_slug ` set (db_jobs ?d1)"
    using example_strings by (simp_all add: r1 example_empty f)
  note r2 = insertJob_fresh[OF fresh2, of examplePlatform ?now]
  have st2: "store st = ?d2"
    by (simp add: s pb insertBatch_def)
  have two: "int (length (db_jobs ?d2)) > MAX_JOBS tightConfig"
    by (simp add: r2 r1 example_empty example_config)
  obtain row where row: "row = last (db_jobs ?d2)"
    by blast
  have trimmed: "db_jobs (trimJobs tightConfig ?d2) = [row]"
    unfolding row
    by (simp add: trimJobs_def two stmtDeleteOld_def orderByPublished_def comesBefore_def
          Let_def r2 r1 example_empty example_config f)
  have seq: "db_jobs_seq (trimJobs tightConfig ?d2) = 2"
    by (simp add: trimJobs_def stmtDeleteOld_def Let_def r2 r1 example_empty)
  have props: "j_id row = 2" "j_guid row = js ''g3''" "j_slug row = js ''caminhoneiro-beta''"
    "j_published_at row = Some 1704067200"
    unfolding row by (simp_all add: r2 r1 example_empty f)
  have "processFeed examplePlatform tightConfig exampleClock noModel [itemA, itemC] emptyDb
          = (Completed, st\<lparr>store := trimJobs tightConfig ?d2\<rparr>)"
    using i st2 by (simp add: processFeed_def)
  then show ?thesis
    using trimmed seq props by simp
qed

lemma example_run_again:
  assumes "db_jobs db = [row]" and "db_jobs_seq db = 2" and "j_id row = 2"
    and "j_guid row = js ''g3''" and "j_slug row = js ''caminhoneiro-beta''"
    and "j_published_at row = Some 1704067200"
  shows "map j_guid (db_jobs (store (snd (processFeed examplePlatform tightConfig exampleClock
                                            noModel [itemA, itemC] db)))) = [js ''g1'']"
proof -
  let ?now = "unixNow exampleClock"
  have small: "length [exampleRaw itemA 1704067200] < 100"
    by simp
  from ingest_small[OF example_config(5) example_parse_again[OF assms(1,4)] small, of noModel]
  obtain st pb where
    i: "ingest examplePlatform tightConfig exampleClock noModel [itemA, itemC] db
          = (Completed, st)"
    and s: "store st = insertBatch examplePlatform ?now db pb"
    and g0: "map p_guid pb = map raw_guid [exampleRaw itemA 1704067200]"
    and sl0: "map p_slug pb = map (feedSlug examplePlatform) [exampleRaw itemA 1704067200]"
    and pu0: "map p_published_at pb = map raw_published_at [exampleRaw itemA 1704067200]"
    by blast
  have g: "map p_guid pb = [js ''g1'']"
    using g0 by (simp add: example_raw_fields example_fields)
  from g obtain pA where pb: "pb = [pA]"
    by (rule one_param)
  have f: "p_guid pA = js ''g1''" "p_slug pA = js ''motorista-acme''"
    "p_published_at pA = Some 1704067200"
    using g sl0 pu0 pb by (simp_all add: example_raw_fields example_raw_slugs)
  let ?d1 = "insertJob examplePlatform ?now db pA"
  have fresh: "p_guid pA \<notin> j_guid ` set (db_jobs db)" "p_slug pA \<notin> j_slug ` set (db_jobs db)"
    using example_strings by (simp_all add: assms f)
  note r = insertJob_fresh[OF fresh, of examplePlatform ?now]
  have st1: "store st = ?d1"
    by (simp add: s pb insertBatch_def)
  have two: "int (length (db_jobs ?d1)) > MAX_JOBS tightConfig"
    by (simp add: r assms example_config)
  have "map j_guid (db_jobs (trimJobs tightConfig ?d1)) = [js ''g1'']"
    by (simp add: trimJobs_def two stmtDeleteOld_def orderByPublished_def comesBefore_def
          Let_def r assms example_config f)
  moreover have "processFeed examplePlatform tightConfig exampleClock noModel [itemA, itemC] db
          = (Completed, st\<lparr>store := trimJobs tightConfig ?d1\<rparr>)"
    using i st1 by (simp add: processFeed_def)
  ultimately show ?thesis by simp
qed

text \<open>
  C1 as stated fails when the first run evicts a job: with room for one job and two items
  of the same date, the first run keeps the job inserted last; the second run skips that
  one, inserts the evicted one again under a new id, and now evicts the other.
\<close>

theorem second_run_changes_jobs:
  "map j_guid
     (db_jobs (store (snd (processFeed examplePlatform tightConfig exampleClock noModel
                             [itemA, itemC] emptyDb)))) = [js ''g3'']
   \<and> map j_guid
       (db_jobs (store (snd (processFeed examplePlatform tightConfig exampleClock noModel
          [itemA, itemC]
          (store (snd (processFeed examplePlatform tightConfig exampleClock noModel
                         [itemA, itemC] emptyDb))))))) = [js ''g1'']
   \<and> db_jobs (store (snd (processFeed examplePlatform tightConfig exampleClock noModel
          [itemA, itemC]
          (store (snd (processFeed examplePlatform tightConfig exampleClock noModel
                         [itemA, itemC] emptyDb))))))
       \<noteq> db_jobs (store (snd (processFeed examplePlatform tightConfig exampleClock noModel
                                [itemA, itemC] emptyDb)))"
proof -
  let ?db1 = "store (snd (processFeed examplePlatform tightConfig exampleClock noModel
                            [itemA, itemC] emptyDb))"
  from example_run_AC obtain row where
    a: "db_jobs ?db1 = [row]" "db_jobs_seq ?db1 = 2" "j_id row = 2" "j_guid row = js ''g3''"
      "j_slug row = js ''caminhoneiro-beta''" "j_published_at row = Some 1704067200"
    by (elim exE conjE)
  have first: "map j_guid (db_jobs ?db1) = [js ''g3'']"
    by (simp add: a)
  have second: "map j_guid (db_jobs (store (snd (processFeed examplePlatform tightConfig
                  exampleClock noModel [itemA, itemC] ?db1)))) = [js ''g1'']"
    by (rule example_run_again[OF a])
  have "db_jobs (store (snd (processFeed examplePlatform tightConfig
                  exampleClock noModel [itemA, itemC] ?db1))) \<noteq> db_jobs ?db1"
  proof
    assume "db_jobs (store (snd (processFeed examplePlatform tightConfig
                  exampleClock noModel [itemA, itemC] ?db1))) = db_jobs ?db1"
    then have "[js ''g1''] = [js ''g3'']"
      using first second by simp
    then show False
      using example_strings by simp
  qed
  with first second show ?thesis by (intro conjI)
qed

theorem second_run_keeps_jobs_witness:
  "db_jobs (store (snd (processFeed examplePlatform exampleConfig
              \<lparr>isoNow = js ''2024-01-04T00:00:00Z'', unixNow = 1704326400\<rparr> (\<lambda>i. Content None)
              [itemA, itemB]
              (store (snd (processFeed examplePlatform exampleConfig exampleClock noModel
                             [itemA, itemB] emptyDb))))))
   = db_jobs (store (snd (processFeed examplePlatform exampleConfig exampleClock noModel
                            [itemA, itemB] emptyDb)))"
proof -
  from example_ingest_AB obtain st where
    i: "ingest examplePlatform exampleConfig exampleClock noModel [itemA, itemB] emptyDb
          = (Completed, st)"
    and jobs: "map (\<lambda>j. (j_guid j, j_slug j)) (db_jobs (store st))
                = [(js ''g1'', js ''motorista-acme'')]"
    by (elim exE conjE)
  have "length (db_jobs (store st)) = 1"
    using arg_cong[OF jobs, of length] by simp
  then have "int (length (db_jobs (store st))) \<le> MAX_JOBS exampleConfig"
    by (simp add: example_config)
  from second_run_keeps_jobs[OF i this] show ?thesis .
qed

section \<open>Runs with the model\<close>

lemma matches_keywords:
  "PROFESSION_KEYWORDS cfg = PROFESSION_KEYWORDS cfg'
     \<Longrightarrow> matchesProfession pf cfg title company description
           = matchesProfession pf cfg' title company description"
  by (simp add: matchesProfession_def)

lemma model_config:
  "PROFESSION_KEYWORDS unlimitedConfig = PROFESSION_KEYWORDS exampleConfig"
  "PROFESSION_KEYWORDS limitedConfig = PROFESSION_KEYWORDS exampleConfig"
  "PROFESSION_KEYWORDS halfConfig = PROFESSION_KEYWORDS exampleConfig"
  "PROFESSION_KEYWORDS constructorConfig = PROFESSION_KEYWORDS exampleConfig"
  "FEED_HOST unlimitedConfig = js ''feed.example.com''"
  "FEED_HOST limitedConfig = js ''feed.example.com''"
  "FEED_HOST halfConfig = js ''feed.example.com''"
  "FEED_HOST constructorConfig = js ''feed.example.com''"
  "HAS_OPENAI unlimitedConfig" "HAS_OPENAI limitedConfig" "HAS_OPENAI halfConfig"
  "HAS_OPENAI constructorConfig"
  by (simp_all add: unlimitedConfig_def limitedConfig_def halfConfig_def constructorConfig_def
        exampleConfig_def)

lemma model_limits:
  "AI_PROCESS_LIMIT unlimitedConfig = Finite 0" "AI_PROCESS_LIMIT limitedConfig = Finite 1"
  "AI_PROCESS_LIMIT halfConfig = Finite (1 / 2)" "AI_PROCESS_LIMIT constructorConfig = Finite 0"
  by (simp_all add: unlimitedConfig_def limitedConfig_def halfConfig_def constructorConfig_def
        exampleConfig_def)


lemma example_parse_A:
  assumes "PROFESSION_KEYWORDS cfg = PROFESSION_KEYWORDS exampleConfig"
    and "FEED_HOST cfg = js ''feed.example.com''"
  shows "batch (foldl (closeItem examplePlatform cfg exampleClock emptyDb)
            \<lparr>processed = 0, matched = 0, skipped = 0, batch = []\<rparr> [itemA])
   = [exampleRaw itemA 1704067200]"
  by (simp add: closeItem_def Let_def stmtHasGuid_def exampleRaw_def example_guids
        example_fields example_empty example_matches example_dates
        matches_keywords[OF assms(1)] assms(2))





lemma constructor_lookup:
  "getProp PROFESSION_TAGS (toLowerCase examplePlatform (TARGET_PROFESSION constructorConfig))
   = Inherited"
  by (simp add: constructorConfig_def examplePlatform_def asciiLower_def getProp_def
        PROFESSION_TAGS_def objectPrototypeKeys_def js_def)

lemma constructor_fallback:
  "fallback examplePlatform constructorConfig plain title company html = Inl TypeError"
  by (simp add: fallback_def Let_def extractTags_throws[OF constructor_lookup])





text \<open>
  C5. A failed call of the model does not always end in the fallback result: with the
  profession \<open>constructor\<close> the vocabulary lookup of the fallback finds the inherited
  member of that name and throws inside the handler of the failure, so \<open>rewriteJobRich\<close>
  raises a TypeError where a reply of the model would have returned a value, and the run
  over a feed of one matching item stops at that item with nothing stored.
\<close>

theorem ai_failure_aborts_run:
  "rewriteJobRich examplePlatform constructorConfig CallFails
     (js ''Motorista'') (js ''Acme'') (js ''Dirigir'') True = Inl TypeError
   \<and> rewriteJobRich examplePlatform constructorConfig (Content (Some xssReply))
       (js ''Motorista'') (js ''Acme'') (js ''Dirigir'') True
     = Inr \<lparr>r_short = js ''Vaga'', r_html = js ''<script>alert(1)</script>'', r_tags = [],
            r_usedAI = True\<rparr>
   \<and> processFeed examplePlatform constructorConfig exampleClock noModel [itemA] emptyDb
     = (Stalled TypeError,
        \<lparr>aiEnhanced = 0, fallbackUsed = 0, processedBatch = [], store = emptyDb,
         requests = [True], results = []\<rparr>)"
proof (intro conjI)
  show "rewriteJobRich examplePlatform constructorConfig CallFails
     (js ''Motorista'') (js ''Acme'') (js ''Dirigir'') True = Inl TypeError"
    by (simp add: rewriteJobRich_no_ai constructor_fallback)
next
  show "rewriteJobRich examplePlatform constructorConfig (Content (Some xssReply))
       (js ''Motorista'') (js ''Acme'') (js ''Dirigir'') True
     = Inr \<lparr>r_short = js ''Vaga'', r_html = js ''<script>alert(1)</script>'', r_tags = [],
            r_usedAI = True\<rparr>"
    by (rule xss_rewrite[OF model_config(12)])
next
  let ?A = "exampleRaw itemA 1704067200"
  let ?init = "\<lparr>aiEnhanced = 0, fallbackUsed = 0, processedBatch = [], store = emptyDb,
                requests = [], results = []\<rparr>"
  note parse = example_parse_A[OF model_config(4) model_config(8)]
  have on: "shouldUseAI constructorConfig 0"
    by (simp add: shouldUseAI_def model_limits)
  have "rewriteJobRich examplePlatform constructorConfig (noModel 0) (rawTitle ?A)
              (rawCompany ?A) (rawDescription ?A)
              (shouldUseAI constructorConfig (aiEnhanced ?init)) = Inl TypeError"
    by (simp add: rewriteJobRich_no_ai noModel_def constructor_fallback)
  then have "enrich examplePlatform constructorConfig exampleClock noModel 0 [?A] ?init
      = (Stalled TypeError,
         ?init\<lparr>requests := requests ?init @ [shouldUseAI constructorConfig
                                                 (aiEnhanced ?init)]\<rparr>)"
    by (rule enrich_stalls)
  then have e: "enrich examplePlatform constructorConfig exampleClock noModel 0 [?A] ?init
      = (Stalled TypeError,
         \<lparr>aiEnhanced = 0, fallbackUsed = 0, processedBatch = [], store = emptyDb,
          requests = [True], results = []\<rparr>)"
    using on by simp
  show "processFeed examplePlatform constructorConfig exampleClock noModel [itemA] emptyDb
     = (Stalled TypeError,
        \<lparr>aiEnhanced = 0, fallbackUsed = 0, processedBatch = [], store = emptyDb,
         requests = [True], results = []\<rparr>)"
    unfolding processFeed_def ingest_def Let_def parse e by simp
qed

theorem ai_failure_aborts_run_witness:
  "\<exists>e. fst (processFeed examplePlatform constructorConfig exampleClock noModel [itemA] emptyDb)
         = Stalled e
       \<and> rewriteJobRich examplePlatform constructorConfig CallFails
            (js ''Motorista'') (js ''Acme'') (js ''Dirigir'') True = Inl e"
  using ai_failure_aborts_run by simp

end
